theory Spec2Isabelle
  imports Main
begin

section \<open>The online tile layer \<open>QGVLayerTilesOnline\<close>\<close>

text \<open>
  A shallow embedding of \<^verbatim>\<open>QGVLayerTilesOnline.cpp\<close>: the persistent tile cache
  (a SQLite table reached through \<^verbatim>\<open>QSqlQuery\<close>), the table \<^verbatim>\<open>mRequest\<close> of network
  replies in flight, and the member functions \<^verbatim>\<open>request\<close>, \<^verbatim>\<open>cancel\<close>,
  \<^verbatim>\<open>onReplyFinished\<close>, \<^verbatim>\<open>removeReply\<close>, \<^verbatim>\<open>findCachedTile\<close> and \<^verbatim>\<open>cacheTile\<close>.

  Every member function takes the state of the layer and returns the new one. What a
  function does to the world outside the object (a network request, a call on a reply,
  the delivery \<^verbatim>\<open>onTile\<close>, a log line, an executed SQL statement) is appended to the
  field \<open>trace\<close> in program order, so that the order of effects can be stated.
  A failed \<^verbatim>\<open>Q_ASSERT\<close> and an index outside a \<^verbatim>\<open>QList\<close> end the program: they are
  the \<open>Inl\<close> results. Assertions are taken as checked, as in a debug build.
\<close>

subsection \<open>Values\<close>

text \<open>
  \<^verbatim>\<open>QByteArray\<close> is an array of \<^verbatim>\<open>char\<close>; \<^verbatim>\<open>isEmpty()\<close> is \<open>= []\<close>. The arrays of this
  file are results of \<^verbatim>\<open>readAll()\<close> and of \<^verbatim>\<open>toByteArray()\<close>; an empty result of
  \<^verbatim>\<open>readAll()\<close> is the null array.
\<close>

type_synonym QByteArray = "char list"

text \<open>
  \<^verbatim>\<open>QGV::GeoTilePos\<close>: a zoom level and a \<^verbatim>\<open>QPoint\<close>. The three \<^verbatim>\<open>int\<close> members are
  only stored, compared and bound to a query, never computed with.
\<close>

record GeoTilePos =
  zoom :: int
  pos_x :: int
  pos_y :: int

text \<open>
  \<^verbatim>\<open>QGVImage\<close>, as far as this file sets it: \<^verbatim>\<open>setGeometry\<close>, \<^verbatim>\<open>loadImage\<close> (the raw
  bytes handed to the decoder) and the property \<^verbatim>\<open>drawDebug\<close>. The type \<open>'r\<close> is that
  of geographic rectangles.
\<close>

record 'r QGVImage =
  geometry :: 'r
  loadedImage :: QByteArray
  drawDebug :: string

text \<open>
  What the class takes from outside this file: the network manager of the library
  (present or not), the pure virtual \<^verbatim>\<open>tilePosToUrl\<close> of the subclass,
  \<^verbatim>\<open>GeoTilePos::toGeoRect\<close>, \<^verbatim>\<open>QUrl(s).toString()\<close>, and the text
  \<^verbatim>\<open>QString("%1\ntile(%2,%3,%4)").arg(a).arg(z).arg(x).arg(y)\<close>.
\<close>

record 'r env =
  networkManager :: bool
  tilePosToUrl :: "GeoTilePos \<Rightarrow> string"
  toGeoRect :: "GeoTilePos \<Rightarrow> 'r"
  urlToString :: "string \<Rightarrow> string"
  formatDrawDebug :: "string \<Rightarrow> int \<Rightarrow> int \<Rightarrow> int \<Rightarrow> string"

datatype crash = AssertionFailed | IndexOutOfRange

subsection \<open>\<^verbatim>\<open>QString::split\<close> and \<^verbatim>\<open>QList::operator[]\<close>\<close>

text \<open>
  \<^verbatim>\<open>split(sep)\<close> keeps empty parts: a string with \<open>n\<close> separators has \<open>n + 1\<close> parts,
  and the empty string has the one part \<open>''''\<close>.
\<close>

fun qsplit :: "char \<Rightarrow> string \<Rightarrow> string list" where
  "qsplit sep [] = [[]]"
| "qsplit sep (c # cs) =
     (if c = sep then [] # qsplit sep cs
      else (case qsplit sep cs of
              [] \<Rightarrow> [[c]]
            | t # ts \<Rightarrow> (c # t) # ts))"

text \<open>Indexing a \<^verbatim>\<open>QList\<close> outside its range is an assertion failure.\<close>

definition qlist_at :: "'a list \<Rightarrow> nat \<Rightarrow> crash + 'a" where
  "qlist_at xs i = (if i < length xs then Inr (xs ! i) else Inl IndexOutOfRange)"

subsection \<open>The SQLite database behind \<^verbatim>\<open>mSqlDatabase\<close>\<close>

text \<open>
  The table \<^verbatim>\<open>Tiles\<close> as the constructor declares it: an \<^verbatim>\<open>AUTOINCREMENT\<close> primary
  key \<^verbatim>\<open>id\<close>, the four columns of the \<^verbatim>\<open>UNIQUE\<close> constraint, and the data.
\<close>

record tile_row =
  row_id :: nat
  zoom_level :: int
  tile_x :: int
  tile_y :: int
  tile_provider :: string
  tile_data :: QByteArray

text \<open>The three statements of the file, with their bound values.\<close>

datatype sql_stmt =
    CreateTableTiles
  | SelectTileData int int int string
  | InsertOrReplaceTile int int int string QByteArray

text \<open>
  The database file: whether \<^verbatim>\<open>open()\<close> succeeds on it, whether it is open, whether
  it can be written, the rows of \<^verbatim>\<open>Tiles\<close> (\<open>None\<close> when the table does not exist) and
  the largest \<^verbatim>\<open>id\<close> handed out so far.
\<close>

record sql_db =
  db_openable :: bool
  db_is_open :: bool
  db_writable :: bool
  db_tiles :: "tile_row list option"
  db_seq :: nat

definition same_tile :: "int \<Rightarrow> int \<Rightarrow> int \<Rightarrow> string \<Rightarrow> tile_row \<Rightarrow> bool" where
  "same_tile z x y pr r =
     (zoom_level r = z \<and> tile_x r = x \<and> tile_y r = y \<and> tile_provider r = pr)"

text \<open>The next \<^verbatim>\<open>AUTOINCREMENT\<close> value: one more than every \<^verbatim>\<open>id\<close> in use or used.\<close>

definition next_rowid :: "tile_row list \<Rightarrow> nat \<Rightarrow> nat" where
  "next_rowid rows sq = Suc (fold max (map row_id rows) sq)"

text \<open>
  \<^verbatim>\<open>QSqlQuery::exec\<close>: success, the values of column 0 of the result rows, and the
  database afterwards. Every statement fails on a database that is not open;
  \<^verbatim>\<open>SELECT\<close> and \<^verbatim>\<open>INSERT\<close> fail without the table; creating the table and inserting
  fail on a database that cannot be written. \<^verbatim>\<open>INSERT OR REPLACE\<close> deletes the rows
  that conflict with the new row on the primary key or on the \<^verbatim>\<open>UNIQUE\<close> columns, then
  inserts. The column \<^verbatim>\<open>tile_data\<close> is \<^verbatim>\<open>NOT NULL\<close>: the driver binds a null
  \<^verbatim>\<open>QByteArray\<close> as \<^verbatim>\<open>NULL\<close>, and the statement then fails and leaves the table as it
  was. The bytes that \<^verbatim>\<open>cacheTile\<close> binds are the result of \<^verbatim>\<open>readAll()\<close>, which is the
  null array when there is nothing to read, so the empty array of the model is the null
  one and inserting it fails. A row with empty data can only be in the table of an
  existing file, which is taken to have the declared columns.
\<close>

fun sql_exec :: "sql_stmt \<Rightarrow> sql_db \<Rightarrow> bool \<times> QByteArray list \<times> sql_db" where
  "sql_exec CreateTableTiles db =
     (if \<not> db_is_open db then (False, [], db)
      else (case db_tiles db of
              Some rows \<Rightarrow> (True, [], db)
            | None \<Rightarrow>
                if db_writable db then (True, [], db\<lparr>db_tiles := Some []\<rparr>)
                else (False, [], db)))"
| "sql_exec (SelectTileData z x y pr) db =
     (if \<not> db_is_open db then (False, [], db)
      else (case db_tiles db of
              None \<Rightarrow> (False, [], db)
            | Some rows \<Rightarrow> (True, map tile_data (filter (same_tile z x y pr) rows), db)))"
| "sql_exec (InsertOrReplaceTile z x y pr d) db =
     (if \<not> db_is_open db \<or> \<not> db_writable db then (False, [], db)
      else (case db_tiles db of
              None \<Rightarrow> (False, [], db)
            | Some rows \<Rightarrow>
                if d = [] then (False, [], db)
                else
                (let i = next_rowid rows (db_seq db);
                     new = \<lparr>row_id = i, zoom_level = z, tile_x = x, tile_y = y,
                            tile_provider = pr, tile_data = d\<rparr>;
                     kept = filter (\<lambda>r. row_id r \<noteq> i \<and> \<not> same_tile z x y pr r) rows
                 in (True, [], db\<lparr>db_tiles := Some (kept @ [new]), db_seq := i\<rparr>))))"

subsection \<open>Replies, effects and the state of the layer\<close>

datatype NetworkError = NoError | OperationCanceledError | OtherNetworkError nat

text \<open>
  What \<^verbatim>\<open>onReplyFinished\<close> reads from the \<^verbatim>\<open>QNetworkReply\<close> it is given: the pointer
  (a number), \<^verbatim>\<open>error()\<close>, \<^verbatim>\<open>errorString()\<close>, \<^verbatim>\<open>readAll()\<close> and \<^verbatim>\<open>url().toString()\<close>.
\<close>

record QNetworkReply =
  reply_id :: nat
  reply_error :: NetworkError
  reply_errorString :: string
  reply_readAll :: QByteArray
  reply_url :: string

text \<open>The request built by \<^verbatim>\<open>request\<close>: the URL, the peer verification mode, the
  header and the two attributes.\<close>

record QNetworkRequest =
  req_url :: string
  req_verifyPeer :: bool
  req_userAgent :: string
  req_pipelining :: bool
  req_preferCache :: bool

datatype reply_status = Running | Done | Aborted

datatype log_text =
    LogDatabase
  | LogQuery sql_stmt
  | LogReply string
  | LogRequest string
  | LogSqlQuery sql_stmt

datatype 'r effect =
    NetworkGet nat QNetworkRequest
  | InFlightInsert GeoTilePos nat
  | InFlightRemove GeoTilePos nat
  | ReplyAbort nat
  | ReplyClose nat
  | ReplyDeleteLater nat
  | OnTile GeoTilePos "'r QGVImage"
  | SqlExec sql_stmt bool
  | QgvCritical log_text
  | QgvDebug log_text

text \<open>
  The layer: its database, the map \<^verbatim>\<open>mRequest\<close> from tile positions to replies, and
  the part of the network manager it touches: the status of every reply it was given,
  the tile position captured by the slot connected to the reply's \<^verbatim>\<open>finished\<close> signal,
  and the next reply to be created.
\<close>

record 'r state =
  mSqlDatabase :: sql_db
  mRequest :: "GeoTilePos \<Rightarrow> nat option"
  replyStatus :: "nat \<Rightarrow> reply_status option"
  finishedSlot :: "nat \<Rightarrow> GeoTilePos option"
  nextReply :: nat
  trace :: "'r effect list"

definition emit :: "'r effect list \<Rightarrow> 'r state \<Rightarrow> 'r state" where
  "emit es s = s\<lparr>trace := trace s @ es\<rparr>"

subsection \<open>The constructor\<close>

definition QGVLayerTilesOnline :: "sql_db \<Rightarrow> 'r state" where
  "QGVLayerTilesOnline file =
     (let db = file\<lparr>db_is_open := db_openable file\<rparr>;
          s = \<lparr>mSqlDatabase = db, mRequest = (\<lambda>p. None), replyStatus = (\<lambda>h. None),
               finishedSlot = (\<lambda>h. None), nextReply = 0, trace = []\<rparr>
      in if \<not> db_is_open db then emit [QgvCritical LogDatabase] s
         else (case sql_exec CreateTableTiles db of
                 (ok, res, db') \<Rightarrow>
                   (let s1 = emit [SqlExec CreateTableTiles ok] (s\<lparr>mSqlDatabase := db'\<rparr>)
                    in if \<not> ok then emit [QgvCritical (LogQuery CreateTableTiles)] s1
                       else s1)))"

subsection \<open>The member functions\<close>

text \<open>
  \<^verbatim>\<open>removeReply\<close>. \<^verbatim>\<open>abort()\<close> ends a reply that is still running. Qt then emits
  \<^verbatim>\<open>finished\<close> with \<^verbatim>\<open>OperationCanceledError\<close> at once, and the connected slot runs
  the error branch of \<^verbatim>\<open>onReplyFinished\<close>: no log line, and \<^verbatim>\<open>removeReply\<close> on the
  position the slot captured. A reply in \<^verbatim>\<open>mRequest\<close> is stored under the position its
  slot captured (lemma \<open>inflight_inv_reachable\<close> below), whose entry has just been
  removed, so the nested call returns at the \<^verbatim>\<open>nullptr\<close> test and changes nothing
  (lemma \<open>cancelled_slot_without_entry\<close>): it is no step of the model.
\<close>

definition abort :: "nat \<Rightarrow> 'r state \<Rightarrow> 'r state" where
  "abort h s =
     (if replyStatus s h = Some Running
      then emit [ReplyAbort h] (s\<lparr>replyStatus := (replyStatus s)(h \<mapsto> Aborted)\<rparr>)
      else emit [ReplyAbort h] s)"

definition removeReply :: "GeoTilePos \<Rightarrow> 'r state \<Rightarrow> 'r state" where
  "removeReply tilePos s =
     (case mRequest s tilePos of
        None \<Rightarrow> s
      | Some reply \<Rightarrow>
          emit [ReplyClose reply, ReplyDeleteLater reply]
            (abort reply
              (emit [InFlightRemove tilePos reply]
                (s\<lparr>mRequest := (mRequest s)(tilePos := None)\<rparr>))))"

definition cancel :: "GeoTilePos \<Rightarrow> 'r state \<Rightarrow> 'r state" where
  "cancel tilePos s = removeReply tilePos s"

definition findCachedTile ::
  "GeoTilePos \<Rightarrow> string \<Rightarrow> 'r state \<Rightarrow> crash + (QByteArray \<times> 'r state)" where
  "findCachedTile tilePos url s =
     (case qlist_at (qsplit CHR ''/'' url) 2 of
        Inl e \<Rightarrow> Inl e
      | Inr provider \<Rightarrow>
          (let q = SelectTileData (zoom tilePos) (pos_x tilePos) (pos_y tilePos) provider
           in case sql_exec q (mSqlDatabase s) of
                (ok, res, db') \<Rightarrow>
                  (let s1 = emit [SqlExec q ok] (s\<lparr>mSqlDatabase := db'\<rparr>)
                   in case res of
                        v # vs \<Rightarrow>
                          if ok then Inr (v, emit [QgvDebug (LogSqlQuery q)] s1)
                          else Inr ([], s1)
                      | [] \<Rightarrow> Inr ([], s1))))"

definition cacheTile ::
  "QByteArray \<Rightarrow> GeoTilePos \<Rightarrow> string \<Rightarrow> 'r state \<Rightarrow> crash + 'r state" where
  "cacheTile img tilePos url s =
     (case qlist_at (qsplit CHR ''/'' url) 2 of
        Inl e \<Rightarrow> Inl e
      | Inr provider \<Rightarrow>
          (let q = InsertOrReplaceTile (zoom tilePos) (pos_x tilePos) (pos_y tilePos)
                     provider img
           in case sql_exec q (mSqlDatabase s) of
                (ok, res, db') \<Rightarrow>
                  (let s1 = emit [SqlExec q ok] (s\<lparr>mSqlDatabase := db'\<rparr>);
                       s2 = (if \<not> ok then emit [QgvCritical (LogQuery q)] s1 else s1)
                   in Inr (emit [QgvDebug (LogSqlQuery q)] s2))))"

text \<open>\<^verbatim>\<open>onTile\<close> of the base class hands the tile to the consumer.\<close>

definition onTile :: "GeoTilePos \<Rightarrow> 'r QGVImage \<Rightarrow> 'r state \<Rightarrow> 'r state" where
  "onTile tilePos tile s = emit [OnTile tilePos tile] s"

definition tileRequest :: "string \<Rightarrow> QNetworkRequest" where
  "tileRequest url =
     \<lparr>req_url = url, req_verifyPeer = False,
      req_userAgent =
        ''Mozilla/5.0 (Windows; U; MSIE 6.0; Windows NT 5.1; SV1; .NET CLR 2.0.50727)'',
      req_pipelining = True, req_preferCache = True\<rparr>"

text \<open>\<^verbatim>\<open>QNetworkAccessManager::get\<close>: a new running reply.\<close>

definition networkGet :: "QNetworkRequest \<Rightarrow> 'r state \<Rightarrow> nat \<times> 'r state" where
  "networkGet rq s =
     (let reply = nextReply s
      in (reply, emit [NetworkGet reply rq]
                   (s\<lparr>replyStatus := (replyStatus s)(reply \<mapsto> Running),
                      nextReply := Suc reply\<rparr>)))"

definition request :: "'r env \<Rightarrow> GeoTilePos \<Rightarrow> 'r state \<Rightarrow> crash + 'r state" where
  "request E tilePos s =
     (if \<not> networkManager E then Inl AssertionFailed
      else
        (let url = tilePosToUrl E tilePos
         in case findCachedTile tilePos (tilePosToUrl E tilePos) s of
              Inl e \<Rightarrow> Inl e
            | Inr (cachedTile, s1) \<Rightarrow>
                if cachedTile \<noteq> [] then
                  (let tile = \<lparr>geometry = toGeoRect E tilePos, loadedImage = cachedTile,
                               drawDebug = formatDrawDebug E (urlToString E url @ '' Cached Tile'')
                                 (zoom tilePos) (pos_x tilePos) (pos_y tilePos)\<rparr>
                   in Inr (onTile tilePos tile s1))
                else
                  (case networkGet (tileRequest url) s1 of
                     (reply, s2) \<Rightarrow>
                       Inr (emit [QgvDebug (LogRequest url)]
                             (emit [InFlightInsert tilePos reply]
                               (s2\<lparr>mRequest := (mRequest s2)(tilePos \<mapsto> reply),
                                   finishedSlot := (finishedSlot s2)(reply \<mapsto> tilePos)\<rparr>))))))"

definition onReplyFinished ::
  "'r env \<Rightarrow> QNetworkReply \<Rightarrow> GeoTilePos \<Rightarrow> 'r state \<Rightarrow> crash + 'r state" where
  "onReplyFinished E reply tilePos s =
     (if reply_error reply \<noteq> NoError then
        (let s1 = (if reply_error reply \<noteq> OperationCanceledError
                   then emit [QgvCritical (LogReply (reply_errorString reply))] s
                   else s)
         in Inr (removeReply tilePos s1))
      else
        (let rawImage = reply_readAll reply;
             tile = \<lparr>geometry = toGeoRect E tilePos, loadedImage = rawImage,
                     drawDebug = formatDrawDebug E (reply_url reply)
                       (zoom tilePos) (pos_x tilePos) (pos_y tilePos)\<rparr>;
             s1 = removeReply tilePos s;
             s2 = onTile tilePos tile s1
         in cacheTile rawImage tilePos (reply_url reply) s2))"

subsection \<open>The layer in its event loop\<close>

text \<open>
  The layer runs on one thread: the consumer calls \<^verbatim>\<open>request\<close> and \<^verbatim>\<open>cancel\<close>, and the
  network manager emits \<^verbatim>\<open>finished\<close> for a reply, once, while it is running; the
  connected slot then calls \<^verbatim>\<open>onReplyFinished\<close> with the captured tile position.
\<close>

datatype event = Request GeoTilePos | Cancel GeoTilePos | Finished QNetworkReply

definition step :: "'r env \<Rightarrow> event \<Rightarrow> 'r state \<Rightarrow> crash + 'r state" where
  "step E ev s =
     (case ev of
        Request tilePos \<Rightarrow> request E tilePos s
      | Cancel tilePos \<Rightarrow> Inr (cancel tilePos s)
      | Finished reply \<Rightarrow>
          (if replyStatus s (reply_id reply) = Some Running then
             (let s1 = s\<lparr>replyStatus := (replyStatus s)(reply_id reply \<mapsto> Done)\<rparr>
              in case finishedSlot s (reply_id reply) of
                   None \<Rightarrow> Inr s1
                 | Some tilePos \<Rightarrow> onReplyFinished E reply tilePos s1)
           else Inr s))"

fun run :: "'r env \<Rightarrow> event list \<Rightarrow> 'r state \<Rightarrow> crash + 'r state" where
  "run E [] s = Inr s"
| "run E (ev # evs) s =
     (case step E ev s of
        Inl e \<Rightarrow> Inl e
      | Inr s' \<Rightarrow> run E evs s')"

subsection \<open>Notions used in the statements\<close>

text \<open>
  Projections of a trace (the deliveries, the network requests, the aborted replies,
  the executed statements, the log lines), the bytes a lookup yields from a database,
  the effects of the three helpers, the \<^verbatim>\<open>UNIQUE\<close> constraint as a predicate on the rows,
  what it means for a tile position to be fetching (a running reply was created for
  it), the invariant of the reachable states, and the data of the examples: the tile
  \<open>(3, 1, 2)\<close> of the provider \<open>tile.example.com\<close>.
\<close>

definition deliveries :: "'r effect list \<Rightarrow> (GeoTilePos \<times> 'r QGVImage) list" where
  "deliveries tr = concat (map (\<lambda>e. case e of OnTile p t \<Rightarrow> [(p, t)] | _ \<Rightarrow> []) tr)"

definition networkGets :: "'r effect list \<Rightarrow> (nat \<times> QNetworkRequest) list" where
  "networkGets tr = concat (map (\<lambda>e. case e of NetworkGet h rq \<Rightarrow> [(h, rq)] | _ \<Rightarrow> []) tr)"

definition replyAborts :: "'r effect list \<Rightarrow> nat list" where
  "replyAborts tr = concat (map (\<lambda>e. case e of ReplyAbort h \<Rightarrow> [h] | _ \<Rightarrow> []) tr)"

definition sqlExecs :: "'r effect list \<Rightarrow> (sql_stmt \<times> bool) list" where
  "sqlExecs tr = concat (map (\<lambda>e. case e of SqlExec q ok \<Rightarrow> [(q, ok)] | _ \<Rightarrow> []) tr)"

definition logged :: "'r effect list \<Rightarrow> 'r effect list" where
  "logged tr = filter (\<lambda>e. case e of QgvCritical t \<Rightarrow> True | QgvDebug t \<Rightarrow> True | _ \<Rightarrow> False) tr"

definition cachedData :: "sql_db \<Rightarrow> int \<Rightarrow> int \<Rightarrow> int \<Rightarrow> string \<Rightarrow> QByteArray" where
  "cachedData db z x y pr =
     (if db_is_open db then
        (case db_tiles db of
           None \<Rightarrow> []
         | Some rows \<Rightarrow>
             (case filter (same_tile z x y pr) rows of
                [] \<Rightarrow> []
              | r # rs \<Rightarrow> tile_data r))
      else [])"

definition removalEffects :: "'r state \<Rightarrow> GeoTilePos \<Rightarrow> 'r effect list" where
  "removalEffects s p =
     (case mRequest s p of
        None \<Rightarrow> []
      | Some h \<Rightarrow> [InFlightRemove p h, ReplyAbort h, ReplyClose h, ReplyDeleteLater h])"

definition findCachedTileEffects :: "sql_db \<Rightarrow> sql_stmt \<Rightarrow> 'r effect list" where
  "findCachedTileEffects db q =
     (case sql_exec q db of
        (ok, res, db') \<Rightarrow>
          SqlExec q ok # (if ok \<and> res \<noteq> [] then [QgvDebug (LogSqlQuery q)] else []))"

definition cacheTileEffects :: "sql_stmt \<Rightarrow> bool \<Rightarrow> 'r effect list" where
  "cacheTileEffects q ok =
     SqlExec q ok # (if ok then [] else [QgvCritical (LogQuery q)]) @ [QgvDebug (LogSqlQuery q)]"

definition isDelivery :: "'r effect \<Rightarrow> bool" where
  "isDelivery e = (case e of OnTile p t \<Rightarrow> True | _ \<Rightarrow> False)"

definition isCacheWrite :: "'r effect \<Rightarrow> bool" where
  "isCacheWrite e = (case e of SqlExec (InsertOrReplaceTile z x y pr d) ok \<Rightarrow> True | _ \<Rightarrow> False)"

definition isRemoval :: "'r effect \<Rightarrow> bool" where
  "isRemoval e = (case e of InFlightRemove p h \<Rightarrow> True | _ \<Rightarrow> False)"

fun precedes :: "('a \<Rightarrow> bool) \<Rightarrow> ('a \<Rightarrow> bool) \<Rightarrow> 'a list \<Rightarrow> bool" where
  "precedes P Q [] = False"
| "precedes P Q (x # xs) = ((P x \<and> list_ex Q xs) \<or> precedes P Q xs)"

definition exampleUrl :: string where
  "exampleUrl = ''http://tile.example.com/3/1/2.png''"

definition exampleEnv :: "string env" where
  "exampleEnv =
     \<lparr>networkManager = True, tilePosToUrl = (\<lambda>p. exampleUrl),
      toGeoRect = (\<lambda>p. ''rect''), urlToString = (\<lambda>u. u),
      formatDrawDebug = (\<lambda>a z x y. a)\<rparr>"

definition examplePos :: GeoTilePos where
  "examplePos = \<lparr>zoom = 3, pos_x = 1, pos_y = 2\<rparr>"

definition exampleDb :: "tile_row list \<Rightarrow> sql_db" where
  "exampleDb rows =
     \<lparr>db_openable = True, db_is_open = True, db_writable = True, db_tiles = Some rows,
      db_seq = length rows\<rparr>"

definition exampleRow :: "QByteArray \<Rightarrow> tile_row" where
  "exampleRow d =
     \<lparr>row_id = 1, zoom_level = 3, tile_x = 1, tile_y = 2,
      tile_provider = ''tile.example.com'', tile_data = d\<rparr>"

definition idleState :: "tile_row list \<Rightarrow> string state" where
  "idleState rows =
     \<lparr>mSqlDatabase = exampleDb rows, mRequest = (\<lambda>p. None), replyStatus = (\<lambda>h. None),
      finishedSlot = (\<lambda>h. None), nextReply = 0, trace = []\<rparr>"

definition fetchingState :: "tile_row list \<Rightarrow> string state" where
  "fetchingState rows =
     \<lparr>mSqlDatabase = exampleDb rows, mRequest = (\<lambda>p. None)(examplePos \<mapsto> 0),
      replyStatus = (\<lambda>h. None)(0 \<mapsto> Running),
      finishedSlot = (\<lambda>h. None)(0 \<mapsto> examplePos), nextReply = 1, trace = []\<rparr>"

definition exampleReply :: "NetworkError \<Rightarrow> QByteArray \<Rightarrow> QNetworkReply" where
  "exampleReply err body =
     \<lparr>reply_id = 0, reply_error = err, reply_errorString = ''failed'',
      reply_readAll = body, reply_url = exampleUrl\<rparr>"

definition unique_tiles :: "tile_row list \<Rightarrow> bool" where
  "unique_tiles rows =
     distinct (map (\<lambda>r. (zoom_level r, tile_x r, tile_y r, tile_provider r)) rows)"

definition fetching :: "'r state \<Rightarrow> GeoTilePos \<Rightarrow> bool" where
  "fetching s p =
     (\<exists>h\<in>{0..<nextReply s}. replyStatus s h = Some Running \<and> finishedSlot s h = Some p)"

definition inflight_inv :: "'r env \<Rightarrow> 'r state \<Rightarrow> bool" where
  "inflight_inv E s \<longleftrightarrow>
     (\<forall>p h. mRequest s p = Some h \<longrightarrow>
        h < nextReply s \<and> replyStatus s h = Some Running \<and> finishedSlot s h = Some p \<and>
        networkManager E \<and> 2 < length (qsplit CHR ''/'' (tilePosToUrl E p)) \<and>
        cachedData (mSqlDatabase s) (zoom p) (pos_x p) (pos_y p)
          (qsplit CHR ''/'' (tilePosToUrl E p) ! 2) = []) \<and>
     (\<forall>h. replyStatus s h = Some Running \<longrightarrow> h < nextReply s \<and> finishedSlot s h \<noteq> None)"

definition startedState :: "string state" where
  "startedState =
     fetchingState []
       \<lparr>trace := [SqlExec CreateTableTiles True,
                  SqlExec (SelectTileData 3 1 2 ''tile.example.com'') True,
                  NetworkGet 0 (tileRequest exampleUrl), InFlightInsert examplePos 0,
                  QgvDebug (LogRequest exampleUrl)]\<rparr>"

section \<open>Auxiliary facts\<close>

subsection \<open>Traces and their projections\<close>

lemma emit_simps [simp]:
  "trace (emit es s) = trace s @ es"
  "mRequest (emit es s) = mRequest s"
  "mSqlDatabase (emit es s) = mSqlDatabase s"
  "replyStatus (emit es s) = replyStatus s"
  "finishedSlot (emit es s) = finishedSlot s"
  "nextReply (emit es s) = nextReply s"
  by (simp_all add: emit_def)

lemma emit_emit [simp]: "emit es (emit ds s) = emit (ds @ es) s"
  by (simp add: emit_def)

lemma emit_Nil [simp]: "emit [] s = s"
  by (simp add: emit_def)

lemma projections_append [simp]:
  "deliveries (tr @ tr') = deliveries tr @ deliveries tr'"
  "networkGets (tr @ tr') = networkGets tr @ networkGets tr'"
  "replyAborts (tr @ tr') = replyAborts tr @ replyAborts tr'"
  "sqlExecs (tr @ tr') = sqlExecs tr @ sqlExecs tr'"
  "logged (tr @ tr') = logged tr @ logged tr'"
  by (simp_all add: deliveries_def networkGets_def replyAborts_def sqlExecs_def logged_def)

lemma projections_Nil [simp]:
  "deliveries [] = []" "networkGets [] = []" "replyAborts [] = []" "sqlExecs [] = []"
  "logged [] = []"
  by (simp_all add: deliveries_def networkGets_def replyAborts_def sqlExecs_def logged_def)

lemma projections_Cons [simp]:
  "deliveries (e # tr) = (case e of OnTile p t \<Rightarrow> [(p, t)] | _ \<Rightarrow> []) @ deliveries tr"
  "networkGets (e # tr) = (case e of NetworkGet h rq \<Rightarrow> [(h, rq)] | _ \<Rightarrow> []) @ networkGets tr"
  "replyAborts (e # tr) = (case e of ReplyAbort h \<Rightarrow> [h] | _ \<Rightarrow> []) @ replyAborts tr"
  "sqlExecs (e # tr) = (case e of SqlExec q ok \<Rightarrow> [(q, ok)] | _ \<Rightarrow> []) @ sqlExecs tr"
  "logged (e # tr) =
     (case e of QgvCritical t \<Rightarrow> [e] | QgvDebug t \<Rightarrow> [e] | _ \<Rightarrow> []) @ logged tr"
  by (simp_all add: deliveries_def networkGets_def replyAborts_def sqlExecs_def logged_def
      split: effect.splits)

subsection \<open>Removing a reply\<close>

lemma abort_simps [simp]:
  "trace (abort h s) = trace s @ [ReplyAbort h]"
  "mRequest (abort h s) = mRequest s"
  "mSqlDatabase (abort h s) = mSqlDatabase s"
  "finishedSlot (abort h s) = finishedSlot s"
  "nextReply (abort h s) = nextReply s"
  "replyStatus (abort h s) =
     (if replyStatus s h = Some Running then (replyStatus s)(h \<mapsto> Aborted) else replyStatus s)"
  by (simp_all add: abort_def)

lemma removeReply_None: "mRequest s p = None \<Longrightarrow> removeReply p s = s"
  by (simp add: removeReply_def)

lemma removeReply_Some:
  assumes "mRequest s p = Some h"
  shows "mRequest (removeReply p s) = (mRequest s)(p := None)"
    and "trace (removeReply p s) =
           trace s @ [InFlightRemove p h, ReplyAbort h, ReplyClose h, ReplyDeleteLater h]"
    and "mSqlDatabase (removeReply p s) = mSqlDatabase s"
    and "finishedSlot (removeReply p s) = finishedSlot s"
    and "nextReply (removeReply p s) = nextReply s"
    and "replyStatus (removeReply p s) =
           (if replyStatus s h = Some Running then (replyStatus s)(h \<mapsto> Aborted)
            else replyStatus s)"
  using assms by (simp_all add: removeReply_def)

lemma removeReply_simps [simp]:
  "mRequest (removeReply p s) = (mRequest s)(p := None)"
  "trace (removeReply p s) = trace s @ removalEffects s p"
  "mSqlDatabase (removeReply p s) = mSqlDatabase s"
  "finishedSlot (removeReply p s) = finishedSlot s"
  "nextReply (removeReply p s) = nextReply s"
  by (cases "mRequest s p"; simp add: removeReply_None removeReply_Some removalEffects_def fun_upd_idem)+

lemma replyStatus_removeReply:
  "replyStatus (removeReply p s) h =
     (if mRequest s p = Some h \<and> replyStatus s h = Some Running then Some Aborted
      else replyStatus s h)"
  by (cases "mRequest s p") (auto simp: removeReply_None removeReply_Some)

lemma mRequest_removeReply_same [simp]: "mRequest (removeReply q s) q = None"
  by simp

lemma removalEffects_projections [simp]:
  "deliveries (removalEffects s p) = []"
  "networkGets (removalEffects s p) = []"
  "sqlExecs (removalEffects s p) = []"
  "logged (removalEffects s p) = []"
  by (simp_all add: removalEffects_def split: option.splits)

subsection \<open>Splitting a URL\<close>

lemma qsplit_not_Nil [simp]: "qsplit sep cs \<noteq> []"
  by (induction cs) (auto split: list.splits)

lemma qsplit_no_sep: "sep \<notin> set a \<Longrightarrow> qsplit sep a = [a]"
  by (induction a) auto

lemma qsplit_append_sep: "sep \<notin> set a \<Longrightarrow> qsplit sep (a @ sep # b) = a # qsplit sep b"
  by (induction a) auto

lemma qsplit_scheme_host:
  assumes "CHR ''/'' \<notin> set scheme" "CHR ''/'' \<notin> set host"
  shows "\<exists>rest. qsplit CHR ''/'' (scheme @ ''//'' @ host @ ''/'' @ path) = scheme # [] # host # rest"
proof -
  have 1: "qsplit CHR ''/'' (host @ ''/'' @ path) = host # qsplit CHR ''/'' path"
    using qsplit_append_sep [OF assms(2)] by simp
  have 2: "qsplit CHR ''/'' (''/'' @ host @ ''/'' @ path) = [] # host # qsplit CHR ''/'' path"
    using 1 by simp
  have "qsplit CHR ''/'' (scheme @ CHR ''/'' # (''/'' @ host @ ''/'' @ path))
          = scheme # qsplit CHR ''/'' (''/'' @ host @ ''/'' @ path)"
    using assms(1) by (rule qsplit_append_sep)
  then show ?thesis using 2 by simp
qed

subsection \<open>The statements on the table\<close>

lemma sql_exec_select:
  "sql_exec (SelectTileData z x y pr) db =
     (db_is_open db \<and> db_tiles db \<noteq> None,
      (if db_is_open db then
         (case db_tiles db of None \<Rightarrow> []
          | Some rows \<Rightarrow> map tile_data (filter (same_tile z x y pr) rows))
       else []), db)"
  by (simp split: option.splits)

lemma fold_max_ge: "(a::nat) \<le> fold max xs a"
proof (induction xs arbitrary: a)
  case Nil
  show ?case by simp
next
  case (Cons x xs)
  have "a \<le> max x a" by simp
  also have "\<dots> \<le> fold max xs (max x a)" by (rule Cons.IH)
  finally show ?case by simp
qed

lemma fold_max_mem: "x \<in> set xs \<Longrightarrow> (x::nat) \<le> fold max xs a"
proof (induction xs arbitrary: a)
  case Nil
  then show ?case by simp
next
  case (Cons y ys)
  show ?case
  proof (cases "x = y")
    case True
    have "x \<le> max y a" using True by simp
    also have "\<dots> \<le> fold max ys (max y a)" by (rule fold_max_ge)
    finally show ?thesis by simp
  next
    case False
    with Cons.prems have "x \<in> set ys" by simp
    then show ?thesis using Cons.IH by simp
  qed
qed

lemma row_id_less_next_rowid: "r \<in> set rows \<Longrightarrow> row_id r < next_rowid rows sq"
  using fold_max_mem [of "row_id r" "map row_id rows" sq] by (simp add: next_rowid_def less_Suc_eq_le)

lemma filter_fresh_rowid:
  "filter (\<lambda>r. row_id r \<noteq> next_rowid rows sq \<and> \<not> same_tile z x y pr r) rows =
   filter (\<lambda>r. \<not> same_tile z x y pr r) rows"
  by (rule filter_cong) (auto dest: row_id_less_next_rowid [where sq = sq])

lemma sql_exec_insert:
  assumes "db_is_open db" "db_writable db" "db_tiles db = Some rows" "d \<noteq> []"
  shows "sql_exec (InsertOrReplaceTile z x y pr d) db =
           (True, [],
            db\<lparr>db_tiles := Some (filter (\<lambda>r. \<not> same_tile z x y pr r) rows @
                    [\<lparr>row_id = next_rowid rows (db_seq db), zoom_level = z, tile_x = x,
                      tile_y = y, tile_provider = pr, tile_data = d\<rparr>]),
               db_seq := next_rowid rows (db_seq db)\<rparr>)"
  using assms by (simp add: Let_def filter_fresh_rowid)

lemma sql_exec_flags:
  "db_is_open (snd (snd (sql_exec q db))) = db_is_open db"
  "db_writable (snd (snd (sql_exec q db))) = db_writable db"
  "db_openable (snd (snd (sql_exec q db))) = db_openable db"
  by (cases q; simp add: Let_def split: option.splits)+

lemma unique_tiles_filter: "unique_tiles rows \<Longrightarrow> unique_tiles (filter P rows)"
  by (simp add: unique_tiles_def distinct_map_filter)

lemma distinct_map_filter_single:
  "distinct (map f xs) \<Longrightarrow> r \<in> set xs \<Longrightarrow> filter (\<lambda>x. f x = f r) xs = [r]"
proof (induction xs)
  case Nil
  then show ?case by simp
next
  case (Cons a xs)
  show ?case
  proof (cases "a = r")
    case True
    have "f r \<notin> f ` set xs" using Cons.prems(1) True by simp
    then have "\<forall>x\<in>set xs. f x \<noteq> f r"
      by (metis imageI)
    then have "filter (\<lambda>x. f x = f r) xs = []"
      by (simp add: filter_empty_conv)
    then show ?thesis using True by simp
  next
    case False
    then have r: "r \<in> set xs" using Cons.prems by simp
    then have "f a \<noteq> f r" using Cons.prems(1) by auto
    then show ?thesis using Cons.IH r Cons.prems(1) by simp
  qed
qed

lemma unique_tiles_single:
  assumes "unique_tiles rows" "r \<in> set rows" "same_tile z x y pr r"
  shows "filter (same_tile z x y pr) rows = [r]"
proof -
  let ?f = "\<lambda>r. (zoom_level r, tile_x r, tile_y r, tile_provider r)"
  have "same_tile z x y pr = (\<lambda>a. ?f a = ?f r)"
    using assms(3) by (auto simp: same_tile_def fun_eq_iff)
  then show ?thesis
    using distinct_map_filter_single [of ?f rows r] assms(1,2) by (simp add: unique_tiles_def)
qed

lemma unique_tiles_insert:
  "unique_tiles rows \<Longrightarrow>
   unique_tiles (filter (\<lambda>r. \<not> same_tile z x y pr r) rows @
     [\<lparr>row_id = i, zoom_level = z, tile_x = x, tile_y = y, tile_provider = pr, tile_data = d\<rparr>])"
  by (auto simp: unique_tiles_def distinct_map_filter same_tile_def)

lemma unique_tiles_sql_exec:
  assumes "\<And>rows. db_tiles db = Some rows \<Longrightarrow> unique_tiles rows"
    and "db_tiles (snd (snd (sql_exec q db))) = Some rows'"
  shows "unique_tiles rows'"
proof (cases q)
  case CreateTableTiles
  then show ?thesis using assms by (auto simp: unique_tiles_def split: if_splits option.splits)
next
  case (SelectTileData z x y pr)
  then show ?thesis using assms by (auto split: if_splits option.splits)
next
  case (InsertOrReplaceTile z x y pr d)
  show ?thesis
  proof (cases "db_is_open db \<and> db_writable db \<and> db_tiles db \<noteq> None \<and> d \<noteq> []")
    case True
    then obtain rows0 where r0: "db_tiles db = Some rows0" by auto
    then have "unique_tiles rows0" using assms(1) by simp
    then show ?thesis
      using assms(2) True r0 InsertOrReplaceTile sql_exec_insert [of db rows0 d z x y pr]
      by (auto simp: unique_tiles_insert simp del: sql_exec.simps)
  next
    case False
    then have "snd (snd (sql_exec q db)) = db"
      using InsertOrReplaceTile by (auto split: option.splits)
    then show ?thesis using assms by simp
  qed
qed

lemma cachedData_unique:
  assumes "db_is_open db" "db_tiles db = Some rows" "unique_tiles rows" "r \<in> set rows"
    and "same_tile z x y pr r"
  shows "cachedData db z x y pr = tile_data r"
  using assms unique_tiles_single [OF assms(3,4,5)] by (simp add: cachedData_def)

lemma cachedData_insert_other:
  assumes "(z, x, y) \<noteq> (z', x', y')"
  shows "cachedData (snd (snd (sql_exec (InsertOrReplaceTile z' x' y' pr' d) db))) z x y pr =
         cachedData db z x y pr"
proof (cases "db_is_open db \<and> db_writable db \<and> db_tiles db \<noteq> None \<and> d \<noteq> []")
  case True
  then obtain rows where rows: "db_tiles db = Some rows" by auto
  have "filter (same_tile z x y pr) (filter (\<lambda>r. \<not> same_tile z' x' y' pr' r) rows) =
        filter (same_tile z x y pr) rows"
    unfolding filter_filter using assms by (intro filter_cong) (auto simp: same_tile_def)
  moreover have "\<not> same_tile z x y pr
      \<lparr>row_id = i, zoom_level = z', tile_x = x', tile_y = y', tile_provider = pr',
       tile_data = d\<rparr>" for i
    using assms by (auto simp: same_tile_def)
  ultimately show ?thesis
    using True rows sql_exec_insert [of db rows d z' x' y' pr']
    by (simp add: cachedData_def del: sql_exec.simps)
next
  case False
  then have "snd (snd (sql_exec (InsertOrReplaceTile z' x' y' pr' d) db)) = db"
    by (auto split: option.splits)
  then show ?thesis by simp
qed

subsection \<open>Lookup and store\<close>

lemma findCachedTileEffects_projections [simp]:
  "deliveries (findCachedTileEffects db q) = []"
  "networkGets (findCachedTileEffects db q) = []"
  "replyAborts (findCachedTileEffects db q) = []"
  "sqlExecs (findCachedTileEffects db q) = [(q, fst (sql_exec q db))]"
  by (simp_all add: findCachedTileEffects_def split: prod.splits del: sql_exec.simps)

lemma findCachedTileEffects_found:
  assumes "db_is_open db" "db_tiles db = Some rows" "r \<in> set rows" "same_tile z x y pr r"
  shows "findCachedTileEffects db (SelectTileData z x y pr) =
           [SqlExec (SelectTileData z x y pr) True, QgvDebug (LogSqlQuery (SelectTileData z x y pr))]"
proof -
  have "filter (same_tile z x y pr) rows \<noteq> []"
    using assms(3,4) by (auto simp: filter_empty_conv)
  then show ?thesis using assms(1,2) by (simp add: findCachedTileEffects_def)
qed

lemma findCachedTileEffects_absent:
  assumes "db_is_open db" "db_tiles db = Some rows" "\<forall>r\<in>set rows. \<not> same_tile z x y pr r"
  shows "findCachedTileEffects db (SelectTileData z x y pr) = [SqlExec (SelectTileData z x y pr) True]"
proof -
  have "filter (same_tile z x y pr) rows = []"
    using assms(3) by (auto simp: filter_empty_conv)
  then show ?thesis using assms(1,2) by (simp add: findCachedTileEffects_def)
qed

lemma findCachedTile_result:
  assumes "2 < length (qsplit CHR ''/'' url)"
  shows "findCachedTile p url s =
           Inr (cachedData (mSqlDatabase s) (zoom p) (pos_x p) (pos_y p) (qsplit CHR ''/'' url ! 2),
                emit (findCachedTileEffects (mSqlDatabase s)
                       (SelectTileData (zoom p) (pos_x p) (pos_y p) (qsplit CHR ''/'' url ! 2))) s)"
  using assms
  by (auto simp: findCachedTile_def qlist_at_def cachedData_def Let_def emit_def
      findCachedTileEffects_def split: option.splits list.splits)

lemma findCachedTile_crash:
  "\<not> 2 < length (qsplit CHR ''/'' url) \<Longrightarrow> findCachedTile p url s = Inl IndexOutOfRange"
  by (simp add: findCachedTile_def qlist_at_def)

lemma cacheTileEffects_projections [simp]:
  "deliveries (cacheTileEffects q ok) = []"
  "networkGets (cacheTileEffects q ok) = []"
  "replyAborts (cacheTileEffects q ok) = []"
  by (simp_all add: cacheTileEffects_def)

lemma cacheTile_crash:
  "\<not> 2 < length (qsplit CHR ''/'' url) \<Longrightarrow> cacheTile img p url s = Inl IndexOutOfRange"
  by (simp add: cacheTile_def qlist_at_def)

lemma cacheTile_result:
  assumes "2 < length (qsplit CHR ''/'' url)"
  shows "cacheTile img p url s =
           (let q = InsertOrReplaceTile (zoom p) (pos_x p) (pos_y p) (qsplit CHR ''/'' url ! 2) img
            in Inr (emit (cacheTileEffects q (fst (sql_exec q (mSqlDatabase s))))
                      (s\<lparr>mSqlDatabase := snd (snd (sql_exec q (mSqlDatabase s)))\<rparr>)))"
  using assms
  by (simp add: cacheTile_def qlist_at_def Let_def cacheTileEffects_def emit_def
      split: prod.splits del: sql_exec.simps)

lemma sql_exec_insert_null:
  "sql_exec (InsertOrReplaceTile z x y pr []) db = (False, [], db)"
  by (simp split: option.splits)

lemma cacheTile_null:
  assumes "2 < length (qsplit CHR ''/'' url)"
  shows "cacheTile [] p url s =
           (let q = InsertOrReplaceTile (zoom p) (pos_x p) (pos_y p) (qsplit CHR ''/'' url ! 2) []
            in Inr (emit [SqlExec q False, QgvCritical (LogQuery q), QgvDebug (LogSqlQuery q)] s))"
  by (simp add: cacheTile_result [OF assms] sql_exec_insert_null cacheTileEffects_def Let_def
      del: sql_exec.simps)

lemma cacheTile_stores:
  assumes "db_is_open (mSqlDatabase s)" "db_writable (mSqlDatabase s)"
    and "db_tiles (mSqlDatabase s) = Some rows"
    and "2 < length (qsplit CHR ''/'' url)" "b \<noteq> []"
  shows "\<exists>s' rows' r.
           cacheTile b p url s = Inr s' \<and>
           db_is_open (mSqlDatabase s') \<and> db_writable (mSqlDatabase s') \<and>
           db_tiles (mSqlDatabase s') = Some rows' \<and>
           filter (same_tile (zoom p) (pos_x p) (pos_y p) (qsplit CHR ''/'' url ! 2)) rows' = [r] \<and>
           tile_data r = b \<and>
           filter (\<lambda>r. \<not> same_tile (zoom p) (pos_x p) (pos_y p) (qsplit CHR ''/'' url ! 2) r) rows' =
           filter (\<lambda>r. \<not> same_tile (zoom p) (pos_x p) (pos_y p) (qsplit CHR ''/'' url ! 2) r) rows"
proof -
  let ?z = "zoom p" and ?x = "pos_x p" and ?y = "pos_y p"
  let ?pr = "qsplit CHR ''/'' url ! 2"
  let ?db = "mSqlDatabase s"
  let ?new = "\<lparr>row_id = next_rowid rows (db_seq ?db), zoom_level = ?z, tile_x = ?x,
        tile_y = ?y, tile_provider = ?pr, tile_data = b\<rparr>"
  let ?rows1 = "filter (\<lambda>r. \<not> same_tile ?z ?x ?y ?pr r) rows @ [?new]"
  let ?db1 = "?db\<lparr>db_tiles := Some ?rows1, db_seq := next_rowid rows (db_seq ?db)\<rparr>"
  let ?s1 = "emit (cacheTileEffects (InsertOrReplaceTile ?z ?x ?y ?pr b) True)
               (s\<lparr>mSqlDatabase := ?db1\<rparr>)"
  have e1: "sql_exec (InsertOrReplaceTile ?z ?x ?y ?pr b) ?db = (True, [], ?db1)"
    using assms(1-3,5) by (rule sql_exec_insert)
  have c1: "cacheTile b p url s = Inr ?s1"
    using e1 by (simp add: cacheTile_result [OF assms(4)] Let_def del: sql_exec.simps)
  have o: "db_is_open (mSqlDatabase ?s1)" "db_writable (mSqlDatabase ?s1)"
    using assms(1,2) by simp_all
  have t: "db_tiles (mSqlDatabase ?s1) = Some ?rows1" by simp
  have f: "filter (same_tile ?z ?x ?y ?pr) ?rows1 = [?new]"
    by (simp add: same_tile_def)
  have g: "filter (\<lambda>r. \<not> same_tile ?z ?x ?y ?pr r) ?rows1 =
           filter (\<lambda>r. \<not> same_tile ?z ?x ?y ?pr r) rows"
    by (simp add: same_tile_def)
  have d: "tile_data ?new = b" by simp
  show ?thesis using c1 o t f g d by blast
qed

subsection \<open>The two paths of a request and of a completion\<close>

lemma request_hit:
  assumes "networkManager E" "2 < length (qsplit CHR ''/'' (tilePosToUrl E p))"
    and "cachedData (mSqlDatabase s) (zoom p) (pos_x p) (pos_y p)
           (qsplit CHR ''/'' (tilePosToUrl E p) ! 2) \<noteq> []"
  shows "request E p s =
     Inr (emit (findCachedTileEffects (mSqlDatabase s)
                  (SelectTileData (zoom p) (pos_x p) (pos_y p)
                     (qsplit CHR ''/'' (tilePosToUrl E p) ! 2)) @
                [OnTile p
                   \<lparr>geometry = toGeoRect E p,
                    loadedImage = cachedData (mSqlDatabase s) (zoom p) (pos_x p) (pos_y p)
                      (qsplit CHR ''/'' (tilePosToUrl E p) ! 2),
                    drawDebug = formatDrawDebug E (urlToString E (tilePosToUrl E p) @ '' Cached Tile'')
                      (zoom p) (pos_x p) (pos_y p)\<rparr>]) s)"
  using assms by (simp add: request_def findCachedTile_result onTile_def Let_def)

lemma request_miss:
  assumes "networkManager E" "2 < length (qsplit CHR ''/'' (tilePosToUrl E p))"
    and "cachedData (mSqlDatabase s) (zoom p) (pos_x p) (pos_y p)
           (qsplit CHR ''/'' (tilePosToUrl E p) ! 2) = []"
  shows "request E p s =
     Inr (s\<lparr>mRequest := (mRequest s)(p \<mapsto> nextReply s),
            replyStatus := (replyStatus s)(nextReply s \<mapsto> Running),
            finishedSlot := (finishedSlot s)(nextReply s \<mapsto> p),
            nextReply := Suc (nextReply s),
            trace := trace s @
              findCachedTileEffects (mSqlDatabase s)
                (SelectTileData (zoom p) (pos_x p) (pos_y p)
                   (qsplit CHR ''/'' (tilePosToUrl E p) ! 2)) @
              [NetworkGet (nextReply s) (tileRequest (tilePosToUrl E p)),
               InFlightInsert p (nextReply s),
               QgvDebug (LogRequest (tilePosToUrl E p))]\<rparr>)"
  using assms
  by (simp add: request_def findCachedTile_result networkGet_def Let_def emit_def)

lemma request_crash:
  "request E p s = Inl e \<longleftrightarrow>
     (\<not> networkManager E \<and> e = AssertionFailed) \<or>
     (networkManager E \<and> \<not> 2 < length (qsplit CHR ''/'' (tilePosToUrl E p)) \<and> e = IndexOutOfRange)"
proof (cases "2 < length (qsplit CHR ''/'' (tilePosToUrl E p))")
  case True
  then show ?thesis
    by (auto simp: request_def findCachedTile_result networkGet_def Let_def
        split: prod.splits)
next
  case False
  then show ?thesis
    by (auto simp: request_def findCachedTile_crash)
qed

lemma onReplyFinished_failure:
  assumes "reply_error reply \<noteq> NoError"
  shows "onReplyFinished E reply p s =
           Inr (removeReply p
                 (emit (if reply_error reply = OperationCanceledError then []
                        else [QgvCritical (LogReply (reply_errorString reply))]) s))"
  using assms by (simp add: onReplyFinished_def)

lemma onReplyFinished_success:
  assumes "reply_error reply = NoError" "2 < length (qsplit CHR ''/'' (reply_url reply))"
  shows "onReplyFinished E reply p s =
     (let q = InsertOrReplaceTile (zoom p) (pos_x p) (pos_y p)
                (qsplit CHR ''/'' (reply_url reply) ! 2) (reply_readAll reply);
          tile = \<lparr>geometry = toGeoRect E p, loadedImage = reply_readAll reply,
                  drawDebug = formatDrawDebug E (reply_url reply) (zoom p) (pos_x p) (pos_y p)\<rparr>
      in Inr (emit (cacheTileEffects q (fst (sql_exec q (mSqlDatabase s))))
                ((emit [OnTile p tile] (removeReply p s))
                   \<lparr>mSqlDatabase := snd (snd (sql_exec q (mSqlDatabase s)))\<rparr>)))"
  using assms
  by (simp add: onReplyFinished_def Let_def cacheTile_result onTile_def del: sql_exec.simps)

lemma onReplyFinished_crash:
  assumes "reply_error reply = NoError" "\<not> 2 < length (qsplit CHR ''/'' (reply_url reply))"
  shows "onReplyFinished E reply p s = Inl IndexOutOfRange"
  using assms by (simp add: onReplyFinished_def Let_def cacheTile_crash)

lemma cancelled_slot_without_entry:
  assumes "reply_error reply = OperationCanceledError" "mRequest s p = None"
  shows "onReplyFinished E reply p s = Inr s"
  using assms by (simp add: onReplyFinished_def removeReply_None)

subsection \<open>The invariant of the reachable states\<close>

lemma inflight_invD:
  assumes "inflight_inv E s" "mRequest s p = Some h"
  shows "h < nextReply s" "replyStatus s h = Some Running" "finishedSlot s h = Some p"
    "networkManager E" "2 < length (qsplit CHR ''/'' (tilePosToUrl E p))"
    "cachedData (mSqlDatabase s) (zoom p) (pos_x p) (pos_y p)
       (qsplit CHR ''/'' (tilePosToUrl E p) ! 2) = []"
  using assms by (auto simp: inflight_inv_def)

lemma inflight_inv_emit [simp]: "inflight_inv E (emit es s) = inflight_inv E s"
  by (simp add: inflight_inv_def)

lemma inflight_inv_initial: "inflight_inv E (QGVLayerTilesOnline file)"
  by (simp add: inflight_inv_def QGVLayerTilesOnline_def Let_def emit_def split: prod.splits
      del: sql_exec.simps)

lemma inflight_inv_removeReply:
  assumes "inflight_inv E s"
  shows "inflight_inv E (removeReply q s)"
proof (cases "mRequest s q")
  case None
  then show ?thesis using assms by (simp add: removeReply_None)
next
  case (Some h0)
  have slot0: "finishedSlot s h0 = Some q" using assms Some by (rule inflight_invD)
  show ?thesis
    unfolding inflight_inv_def
  proof (intro conjI allI impI)
    fix p h assume "mRequest (removeReply q s) p = Some h"
    then have ne: "p \<noteq> q" and m: "mRequest s p = Some h"
      by (auto split: if_splits)
    note d = inflight_invD [OF assms m]
    have "h \<noteq> h0" using d(3) slot0 ne by auto
    then show "replyStatus (removeReply q s) h = Some Running"
      using d(2) Some by (simp add: replyStatus_removeReply)
    show "h < nextReply (removeReply q s)" using d(1) by simp
    show "finishedSlot (removeReply q s) h = Some p" using d(3) by simp
    show "networkManager E" by (rule d(4))
    show "2 < length (qsplit CHR ''/'' (tilePosToUrl E p))" by (rule d(5))
    show "cachedData (mSqlDatabase (removeReply q s)) (zoom p) (pos_x p) (pos_y p)
            (qsplit CHR ''/'' (tilePosToUrl E p) ! 2) = []"
      using d(6) by simp
  next
    fix h assume "replyStatus (removeReply q s) h = Some Running"
    then have "replyStatus s h = Some Running"
      by (auto simp: replyStatus_removeReply split: if_splits)
    then show "h < nextReply (removeReply q s)" and "finishedSlot (removeReply q s) h \<noteq> None"
      using assms by (auto simp: inflight_inv_def)
  qed
qed

lemma inflight_inv_request:
  assumes "inflight_inv E s" "request E q s = Inr s'"
  shows "inflight_inv E s'"
proof -
  have nm: "networkManager E" and len: "2 < length (qsplit CHR ''/'' (tilePosToUrl E q))"
    using assms(2) request_crash [of E q s] by (auto simp: request_def split: if_splits)
  let ?c = "cachedData (mSqlDatabase s) (zoom q) (pos_x q) (pos_y q)
              (qsplit CHR ''/'' (tilePosToUrl E q) ! 2)"
  show ?thesis
  proof (cases "?c = []")
    case False
    then show ?thesis
      using assms request_hit [OF nm len, of s] by auto
  next
    case True
    have s': "s' = s\<lparr>mRequest := (mRequest s)(q \<mapsto> nextReply s),
            replyStatus := (replyStatus s)(nextReply s \<mapsto> Running),
            finishedSlot := (finishedSlot s)(nextReply s \<mapsto> q),
            nextReply := Suc (nextReply s),
            trace := trace s @
              findCachedTileEffects (mSqlDatabase s)
                (SelectTileData (zoom q) (pos_x q) (pos_y q)
                   (qsplit CHR ''/'' (tilePosToUrl E q) ! 2)) @
              [NetworkGet (nextReply s) (tileRequest (tilePosToUrl E q)),
               InFlightInsert q (nextReply s),
               QgvDebug (LogRequest (tilePosToUrl E q))]\<rparr>"
      using assms(2) request_miss [OF nm len True] by simp
    have part1: "h < nextReply s' \<and> replyStatus s' h = Some Running \<and>
            finishedSlot s' h = Some p \<and>
            networkManager E \<and> 2 < length (qsplit CHR ''/'' (tilePosToUrl E p)) \<and>
            cachedData (mSqlDatabase s') (zoom p) (pos_x p) (pos_y p)
              (qsplit CHR ''/'' (tilePosToUrl E p) ! 2) = []"
      if m': "mRequest s' p = Some h" for p h
    proof (cases "p = q")
      case True
      then show ?thesis using m' s' nm len \<open>?c = []\<close> by simp
    next
      case False
      then have m: "mRequest s p = Some h" using m' s' by simp
      note d = inflight_invD [OF assms(1) m]
      have "h \<noteq> nextReply s" using d(1) by simp
      then show ?thesis using d s' by simp
    qed
    have part2: "h < nextReply s' \<and> finishedSlot s' h \<noteq> None"
      if "replyStatus s' h = Some Running" for h
    proof -
      have "h = nextReply s \<or> replyStatus s h = Some Running"
        using that s' by (auto split: if_splits)
      then show ?thesis
        using assms(1) s' by (auto simp: inflight_inv_def less_Suc_eq)
    qed
    show ?thesis
      unfolding inflight_inv_def using part1 part2 by blast
  qed
qed

lemma GeoTilePos_neq:
  "(p::GeoTilePos) \<noteq> q \<Longrightarrow> (zoom p, pos_x p, pos_y p) \<noteq> (zoom q, pos_x q, pos_y q)"
  by (cases p, cases q) auto

lemma inflight_inv_cacheTile:
  assumes "inflight_inv E s" "mRequest s p0 = None" "cacheTile img p0 url s = Inr s'"
  shows "inflight_inv E s'"
proof -
  have len: "2 < length (qsplit CHR ''/'' url)"
    using assms(3) cacheTile_crash [of url img p0 s] by (cases "2 < length (qsplit CHR ''/'' url)") auto
  let ?q = "InsertOrReplaceTile (zoom p0) (pos_x p0) (pos_y p0) (qsplit CHR ''/'' url ! 2) img"
  have s': "s' = emit (cacheTileEffects ?q (fst (sql_exec ?q (mSqlDatabase s))))
                   (s\<lparr>mSqlDatabase := snd (snd (sql_exec ?q (mSqlDatabase s)))\<rparr>)"
    using assms(3) cacheTile_result [OF len, of img p0 s] by (simp add: Let_def del: sql_exec.simps)
  have c: "cachedData (mSqlDatabase s') (zoom p) (pos_x p) (pos_y p) pr =
           cachedData (mSqlDatabase s) (zoom p) (pos_x p) (pos_y p) pr"
    if "p \<noteq> p0" for p pr
    unfolding s' using cachedData_insert_other [OF GeoTilePos_neq [OF that]]
    by (simp del: sql_exec.simps)
  have ne: "p \<noteq> p0" if "mRequest s p = Some h" for p h
    using that assms(2) by auto
  show ?thesis
    unfolding inflight_inv_def
  proof (intro conjI allI impI)
    fix p h assume "mRequest s' p = Some h"
    then have m: "mRequest s p = Some h" by (simp add: s')
    note d = inflight_invD [OF assms(1) m]
    show "h < nextReply s'" "replyStatus s' h = Some Running" "finishedSlot s' h = Some p"
      using d by (simp_all add: s')
    show "networkManager E" "2 < length (qsplit CHR ''/'' (tilePosToUrl E p))"
      using d by simp_all
    show "cachedData (mSqlDatabase s') (zoom p) (pos_x p) (pos_y p)
            (qsplit CHR ''/'' (tilePosToUrl E p) ! 2) = []"
      using c [OF ne [OF m]] d(6) by simp
  next
    fix h assume "replyStatus s' h = Some Running"
    then have "replyStatus s h = Some Running" by (simp add: s')
    then show "h < nextReply s'" "finishedSlot s' h \<noteq> None"
      using assms(1) by (auto simp: inflight_inv_def s')
  qed
qed

lemma inflight_inv_finished:
  assumes "inflight_inv E s" "finishedSlot s h0 = Some p0"
  shows "inflight_inv E
           (removeReply p0 (emit es (s\<lparr>replyStatus := (replyStatus s)(h0 \<mapsto> Done)\<rparr>)))"
    (is "inflight_inv E ?s'")
proof -
  let ?s1 = "emit es (s\<lparr>replyStatus := (replyStatus s)(h0 \<mapsto> Done)\<rparr>)"
  have part1: "h < nextReply ?s' \<and> replyStatus ?s' h = Some Running \<and>
            finishedSlot ?s' h = Some p \<and>
            networkManager E \<and> 2 < length (qsplit CHR ''/'' (tilePosToUrl E p)) \<and>
            cachedData (mSqlDatabase ?s') (zoom p) (pos_x p) (pos_y p)
              (qsplit CHR ''/'' (tilePosToUrl E p) ! 2) = []"
    if m': "mRequest ?s' p = Some h" for p h
  proof -
    have ne: "p \<noteq> p0" and m: "mRequest s p = Some h"
      using m' by (auto split: if_splits)
    note d = inflight_invD [OF assms(1) m]
    have h0: "h \<noteq> h0" using d(3) assms(2) ne by auto
    have "mRequest s p0 \<noteq> Some h"
      using inflight_invD(3) [OF assms(1), of p0 h] d(3) ne by auto
    then have "replyStatus ?s' h = Some Running"
      using d(2) h0 by (simp add: replyStatus_removeReply)
    then show ?thesis using d by simp
  qed
  have part2: "h < nextReply ?s' \<and> finishedSlot ?s' h \<noteq> None"
    if "replyStatus ?s' h = Some Running" for h
  proof -
    have "replyStatus s h = Some Running"
      using that by (auto simp: replyStatus_removeReply split: if_splits)
    then show ?thesis using assms(1) by (auto simp: inflight_inv_def)
  qed
  show ?thesis
    unfolding inflight_inv_def using part1 part2 by blast
qed

lemma inflight_inv_onReplyFinished:
  assumes "inflight_inv E s" "finishedSlot s (reply_id reply) = Some p0"
    and "onReplyFinished E reply p0 (s\<lparr>replyStatus := (replyStatus s)(reply_id reply \<mapsto> Done)\<rparr>)
           = Inr s'"
  shows "inflight_inv E s'"
proof (cases "reply_error reply = NoError")
  case False
  then show ?thesis
    using assms(3) inflight_inv_finished [OF assms(1,2)]
    by (auto simp: onReplyFinished_failure)
next
  case True
  let ?s1 = "s\<lparr>replyStatus := (replyStatus s)(reply_id reply \<mapsto> Done)\<rparr>"
  let ?tile = "\<lparr>geometry = toGeoRect E p0, loadedImage = reply_readAll reply,
                drawDebug = formatDrawDebug E (reply_url reply) (zoom p0) (pos_x p0) (pos_y p0)\<rparr>"
  let ?s2 = "onTile p0 ?tile (removeReply p0 ?s1)"
  have eq: "onReplyFinished E reply p0 ?s1 =
              cacheTile (reply_readAll reply) p0 (reply_url reply) ?s2"
    using True by (simp add: onReplyFinished_def Let_def)
  have "inflight_inv E (removeReply p0 (emit [] ?s1))"
    using assms(1,2) by (rule inflight_inv_finished)
  then have i2: "inflight_inv E ?s2" by (simp add: onTile_def)
  have n2: "mRequest ?s2 p0 = None" by (simp add: onTile_def)
  show ?thesis
    using i2 n2 assms(3) [unfolded eq] by (rule inflight_inv_cacheTile)
qed

lemma inflight_inv_step:
  assumes "inflight_inv E s" "step E ev s = Inr s'"
  shows "inflight_inv E s'"
proof (cases ev)
  case (Request p)
  then show ?thesis using assms by (auto simp: step_def intro: inflight_inv_request)
next
  case (Cancel p)
  then show ?thesis using assms by (auto simp: step_def cancel_def intro: inflight_inv_removeReply)
next
  case (Finished reply)
  show ?thesis
  proof (cases "replyStatus s (reply_id reply) = Some Running")
    case False
    then show ?thesis using assms Finished by (simp add: step_def)
  next
    case True
    then obtain p0 where slot: "finishedSlot s (reply_id reply) = Some p0"
      using assms(1) by (auto simp: inflight_inv_def)
    then have "onReplyFinished E reply p0
                 (s\<lparr>replyStatus := (replyStatus s)(reply_id reply \<mapsto> Done)\<rparr>) = Inr s'"
      using assms(2) Finished True by (simp add: step_def Let_def)
    with assms(1) slot show ?thesis by (rule inflight_inv_onReplyFinished)
  qed
qed

lemma inflight_inv_run:
  "inflight_inv E s \<Longrightarrow> run E evs s = Inr s' \<Longrightarrow> inflight_inv E s'"
proof (induction evs arbitrary: s)
  case Nil
  then show ?case by simp
next
  case (Cons ev evs)
  then show ?case
    by (auto split: sum.splits dest: inflight_inv_step)
qed

lemma inflight_inv_reachable:
  "run E evs (QGVLayerTilesOnline file) = Inr s \<Longrightarrow> inflight_inv E s"
  using inflight_inv_initial by (rule inflight_inv_run)

subsection \<open>The examples\<close>

lemmas example_defs =
  exampleUrl_def exampleEnv_def examplePos_def exampleDb_def exampleRow_def idleState_def
  fetchingState_def exampleReply_def

section \<open>The claims\<close>

text \<open>
  Claim C1. In every state that the layer reaches from its constructor and in which
  \<^verbatim>\<open>mRequest\<close> holds a reply \<open>h\<close> for \<open>tilePos\<close>, a further \<^verbatim>\<open>request(tilePos)\<close> returns
  normally, issues exactly one network request, which creates a new reply, calls
  \<^verbatim>\<open>abort\<close> on no reply, and stores the new reply under \<open>tilePos\<close> in place of \<open>h\<close>.
  The old reply keeps running with its slot still connected for \<open>tilePos\<close>: requests
  for one position are not de-duplicated.
\<close>

theorem second_request_not_deduplicated:
  assumes "run E evs (QGVLayerTilesOnline file) = Inr s"
    and "mRequest s tilePos = Some h"
  shows "\<exists>s' added.
           request E tilePos s = Inr s' \<and> trace s' = trace s @ added \<and>
           networkGets added = [(nextReply s, tileRequest (tilePosToUrl E tilePos))] \<and>
           replyAborts added = [] \<and>
           mRequest s' = (mRequest s)(tilePos \<mapsto> nextReply s) \<and> nextReply s \<noteq> h \<and>
           replyStatus s' h = Some Running \<and> replyStatus s' (nextReply s) = Some Running \<and>
           finishedSlot s' h = Some tilePos \<and> finishedSlot s' (nextReply s) = Some tilePos"
proof -
  have inv: "inflight_inv E s" using assms(1) by (rule inflight_inv_reachable)
  note d = inflight_invD [OF inv assms(2)]
  have ne: "nextReply s \<noteq> h" using d(1) by simp
  show ?thesis
    using d(2,3) ne
    by (simp add: request_miss [OF d(4,5,6)] del: sql_exec.simps)
qed

text \<open>
  Two requests for the tile \<open>(3, 1, 2)\<close> on an empty cache: two network requests, no
  abort, the table holds the second reply and both replies run.
\<close>

theorem second_request_not_deduplicated_witness:
  "\<exists>s'. run exampleEnv [Request examplePos, Request examplePos]
            (QGVLayerTilesOnline (exampleDb [])) = Inr s' \<and>
         networkGets (trace s') = [(0, tileRequest exampleUrl), (1, tileRequest exampleUrl)] \<and>
         replyAborts (trace s') = [] \<and> mRequest s' examplePos = Some 1 \<and>
         replyStatus s' 0 = Some Running \<and> replyStatus s' 1 = Some Running"
  using second_request_not_deduplicated [of exampleEnv "[Request examplePos]" "exampleDb []"
      startedState examplePos 0]
  by (auto simp: example_defs startedState_def step_def request_def findCachedTile_def
      qlist_at_def QGVLayerTilesOnline_def networkGet_def emit_def Let_def)

text \<open>
  Claim C2. \<^verbatim>\<open>mRequest\<close> is a map, so a tile position has at most one entry. In every
  state reachable from the constructor: a position that is not fetching has no entry,
  since every entry holds a running reply whose slot captured that position;
  \<^verbatim>\<open>request\<close> changes the table exactly when it issues a network request, and then
  by the one entry for the new reply; \<^verbatim>\<open>cancel\<close> removes the entry of its position;
  and the completion of a running reply, with or without an error, removes the entry
  of the position its slot captured.
\<close>

theorem inflight_table_invariant:
  assumes "run E evs (QGVLayerTilesOnline file) = Inr s"
  shows "(\<forall>p. \<not> fetching s p \<longrightarrow> mRequest s p = None) \<and>
         (\<forall>p h. mRequest s p = Some h \<longrightarrow>
            replyStatus s h = Some Running \<and> finishedSlot s h = Some p) \<and>
         (\<forall>p s'. request E p s = Inr s' \<longrightarrow>
            (networkGets (trace s') = networkGets (trace s) \<and> mRequest s' = mRequest s) \<or>
            (networkGets (trace s') =
               networkGets (trace s) @ [(nextReply s, tileRequest (tilePosToUrl E p))] \<and>
             mRequest s' = (mRequest s)(p \<mapsto> nextReply s))) \<and>
         (\<forall>p. mRequest (cancel p s) = (mRequest s)(p := None)) \<and>
         (\<forall>reply s'. replyStatus s (reply_id reply) = Some Running \<and>
            step E (Finished reply) s = Inr s' \<longrightarrow>
            (\<exists>p. finishedSlot s (reply_id reply) = Some p \<and>
                 mRequest s' = (mRequest s)(p := None)))"
proof -
  have inv: "inflight_inv E s" using assms by (rule inflight_inv_reachable)
  have a: "replyStatus s h = Some Running \<and> finishedSlot s h = Some p \<and> h < nextReply s"
    if "mRequest s p = Some h" for p h
    using inflight_invD [OF inv that] by simp
  have b: "mRequest s p = None" if "\<not> fetching s p" for p
  proof (cases "mRequest s p")
    case None
    then show ?thesis .
  next
    case (Some h)
    then have "fetching s p" using a [OF Some] by (auto simp: fetching_def)
    then show ?thesis using that by simp
  qed
  have c: "(networkGets (trace s') = networkGets (trace s) \<and> mRequest s' = mRequest s) \<or>
            (networkGets (trace s') =
               networkGets (trace s) @ [(nextReply s, tileRequest (tilePosToUrl E p))] \<and>
             mRequest s' = (mRequest s)(p \<mapsto> nextReply s))"
    if r: "request E p s = Inr s'" for p s'
  proof -
    have nm: "networkManager E" and len: "2 < length (qsplit CHR ''/'' (tilePosToUrl E p))"
      using r request_crash [of E p s] by (auto simp: request_def split: if_splits)
    show ?thesis
    proof (cases "cachedData (mSqlDatabase s) (zoom p) (pos_x p) (pos_y p)
              (qsplit CHR ''/'' (tilePosToUrl E p) ! 2) = []")
      case True
      show ?thesis
        using r unfolding request_miss [OF nm len True] by (auto simp del: sql_exec.simps)
    next
      case False
      show ?thesis
        using r unfolding request_hit [OF nm len False] by (auto simp del: sql_exec.simps)
    qed
  qed
  have d: "mRequest (cancel p s) = (mRequest s)(p := None)" for p
    by (simp add: cancel_def)
  have e: "\<exists>p. finishedSlot s (reply_id reply) = Some p \<and> mRequest s' = (mRequest s)(p := None)"
    if run: "replyStatus s (reply_id reply) = Some Running"
      and st: "step E (Finished reply) s = Inr s'" for reply s'
  proof -
    obtain p where slot: "finishedSlot s (reply_id reply) = Some p"
      using inv run by (auto simp: inflight_inv_def)
    let ?s1 = "s\<lparr>replyStatus := (replyStatus s)(reply_id reply \<mapsto> Done)\<rparr>"
    have o: "onReplyFinished E reply p ?s1 = Inr s'"
      using st run slot by (simp add: step_def Let_def)
    have "mRequest s' = (mRequest s)(p := None)"
    proof (cases "reply_error reply = NoError")
      case False
      then show ?thesis using o by (auto simp: onReplyFinished_failure)
    next
      case True
      have len: "2 < length (qsplit CHR ''/'' (reply_url reply))"
        using o onReplyFinished_crash [OF True, of E p ?s1]
        by (cases "2 < length (qsplit CHR ''/'' (reply_url reply))") auto
      show ?thesis
        using o unfolding onReplyFinished_success [OF True len]
        by (auto simp: Let_def simp del: sql_exec.simps)
    qed
    then show ?thesis using slot by blast
  qed
  show ?thesis using a b c d e by blast
qed

text \<open>
  After the constructor and one request for the tile \<open>(3, 1, 2)\<close> that tile is fetching
  and has the entry \<open>0\<close>; the tile \<open>(0, 0, 0)\<close> is not fetching and has none.
\<close>

theorem inflight_table_invariant_witness:
  "run exampleEnv [Request examplePos] (QGVLayerTilesOnline (exampleDb [])) = Inr startedState \<and>
   fetching startedState examplePos \<and> mRequest startedState examplePos = Some 0 \<and>
   replyStatus startedState 0 = Some Running \<and>
   \<not> fetching startedState \<lparr>zoom = 0, pos_x = 0, pos_y = 0\<rparr> \<and>
   mRequest startedState \<lparr>zoom = 0, pos_x = 0, pos_y = 0\<rparr> = None"
  using inflight_table_invariant [of exampleEnv "[Request examplePos]" "exampleDb []"
      startedState]
  by (simp add: example_defs startedState_def step_def request_def findCachedTile_def
      qlist_at_def QGVLayerTilesOnline_def networkGet_def emit_def Let_def fetching_def)

text \<open>
  Claim C3. From a state where the cache yields no bytes for \<open>tilePos\<close>, a request
  followed by the completion of the reply it created delivers exactly one tile when
  the reply has no error: it is the only \<open>OnTile\<close> added to the trace, for \<open>tilePos\<close>,
  with the geometry \<open>toGeoRect tilePos\<close> and the bytes received. When the reply has an
  error, no \<open>OnTile\<close> is added. (The URL of a successful reply must have a third part,
  or \<^verbatim>\<open>cacheTile\<close> fails at its index after the delivery.)
\<close>

theorem request_then_completion_delivers_once:
  assumes "networkManager E"
    and "2 < length (qsplit CHR ''/'' (tilePosToUrl E tilePos))"
    and "cachedData (mSqlDatabase s) (zoom tilePos) (pos_x tilePos) (pos_y tilePos)
           (qsplit CHR ''/'' (tilePosToUrl E tilePos) ! 2) = []"
    and "reply_id reply = nextReply s"
  shows "(reply_error reply = NoError \<and> 2 < length (qsplit CHR ''/'' (reply_url reply)) \<longrightarrow>
           (\<exists>s'. run E [Request tilePos, Finished reply] s = Inr s' \<and>
              deliveries (trace s') = deliveries (trace s) @
                [(tilePos,
                  \<lparr>geometry = toGeoRect E tilePos, loadedImage = reply_readAll reply,
                   drawDebug = formatDrawDebug E (reply_url reply) (zoom tilePos)
                     (pos_x tilePos) (pos_y tilePos)\<rparr>)])) \<and>
         (reply_error reply \<noteq> NoError \<longrightarrow>
           (\<exists>s'. run E [Request tilePos, Finished reply] s = Inr s' \<and>
              deliveries (trace s') = deliveries (trace s)))"
proof (intro conjI impI)
  assume "reply_error reply = NoError \<and> 2 < length (qsplit CHR ''/'' (reply_url reply))"
  then have ok: "reply_error reply = NoError"
    and len: "2 < length (qsplit CHR ''/'' (reply_url reply))" by simp_all
  show "\<exists>s'. run E [Request tilePos, Finished reply] s = Inr s' \<and>
              deliveries (trace s') = deliveries (trace s) @
                [(tilePos,
                  \<lparr>geometry = toGeoRect E tilePos, loadedImage = reply_readAll reply,
                   drawDebug = formatDrawDebug E (reply_url reply) (zoom tilePos)
                     (pos_x tilePos) (pos_y tilePos)\<rparr>)]"
    using assms(4)
    by (simp add: step_def request_miss [OF assms(1,2,3)] onReplyFinished_success [OF ok len]
        Let_def del: sql_exec.simps)
next
  assume err: "reply_error reply \<noteq> NoError"
  show "\<exists>s'. run E [Request tilePos, Finished reply] s = Inr s' \<and>
              deliveries (trace s') = deliveries (trace s)"
    using assms(4)
    by (simp add: step_def request_miss [OF assms(1,2,3)] onReplyFinished_failure [OF err]
        Let_def del: sql_exec.simps)
qed

text \<open>
  The tile \<open>(3, 1, 2)\<close> on an empty cache: one delivery after a reply without error,
  none after a reply with an error.
\<close>

theorem request_then_completion_delivers_once_witness:
  "(\<exists>s'. run exampleEnv [Request examplePos, Finished (exampleReply NoError ''PNG'')]
            (idleState []) = Inr s' \<and>
      deliveries (trace s') =
        [(examplePos, \<lparr>geometry = ''rect'', loadedImage = ''PNG'', drawDebug = exampleUrl\<rparr>)]) \<and>
   (\<exists>s'. run exampleEnv [Request examplePos, Finished (exampleReply (OtherNetworkError 3) [])]
            (idleState []) = Inr s' \<and> deliveries (trace s') = [])"
  using request_then_completion_delivers_once [of exampleEnv examplePos "idleState []"
      "exampleReply NoError ''PNG''"]
    request_then_completion_delivers_once [of exampleEnv examplePos "idleState []"
      "exampleReply (OtherNetworkError 3) []"]
  by (auto simp: example_defs cachedData_def)

text \<open>
  Claim C4. When the open database holds a row for the key of \<open>tilePos\<close> (its zoom,
  x, y and the third part of its URL) with data that is not empty, \<^verbatim>\<open>request\<close> executes
  the \<^verbatim>\<open>SELECT\<close>, logs it and delivers one tile with the stored bytes and the geometry
  of \<open>tilePos\<close>; it issues no network request and leaves \<^verbatim>\<open>mRequest\<close>, the replies and
  the database as they were.
\<close>

theorem request_cache_hit:
  assumes "networkManager E"
    and "2 < length (qsplit CHR ''/'' (tilePosToUrl E tilePos))"
    and "db_is_open (mSqlDatabase s)" "db_tiles (mSqlDatabase s) = Some rows"
    and "unique_tiles rows" "r \<in> set rows"
    and "same_tile (zoom tilePos) (pos_x tilePos) (pos_y tilePos)
           (qsplit CHR ''/'' (tilePosToUrl E tilePos) ! 2) r"
    and "tile_data r \<noteq> []"
  shows "\<exists>s' q. request E tilePos s = Inr s' \<and>
           q = SelectTileData (zoom tilePos) (pos_x tilePos) (pos_y tilePos)
                 (qsplit CHR ''/'' (tilePosToUrl E tilePos) ! 2) \<and>
           trace s' = trace s @
             [SqlExec q True, QgvDebug (LogSqlQuery q),
              OnTile tilePos
                \<lparr>geometry = toGeoRect E tilePos, loadedImage = tile_data r,
                 drawDebug = formatDrawDebug E
                   (urlToString E (tilePosToUrl E tilePos) @ '' Cached Tile'')
                   (zoom tilePos) (pos_x tilePos) (pos_y tilePos)\<rparr>] \<and>
           networkGets (trace s') = networkGets (trace s) \<and>
           mRequest s' = mRequest s \<and> replyStatus s' = replyStatus s \<and>
           finishedSlot s' = finishedSlot s \<and> nextReply s' = nextReply s \<and>
           mSqlDatabase s' = mSqlDatabase s"
proof -
  have c: "cachedData (mSqlDatabase s) (zoom tilePos) (pos_x tilePos) (pos_y tilePos)
             (qsplit CHR ''/'' (tilePosToUrl E tilePos) ! 2) = tile_data r"
    using assms(3-7) by (rule cachedData_unique)
  show ?thesis
    using assms(8)
    by (simp add: request_hit [OF assms(1,2)] c
        findCachedTileEffects_found [OF assms(3,4,6,7)])
qed

text \<open>
  The stored entry of the specification: zoom 3, x 1, y 2, provider
  \<open>tile.example.com\<close>, and the URL \<open>http://tile.example.com/3/1/2.png\<close>.
\<close>

theorem request_cache_hit_witness:
  "\<exists>s'. request exampleEnv examplePos (idleState [exampleRow ''PNG'']) = Inr s' \<and>
     trace s' =
       [SqlExec (SelectTileData 3 1 2 ''tile.example.com'') True,
        QgvDebug (LogSqlQuery (SelectTileData 3 1 2 ''tile.example.com'')),
        OnTile examplePos
          \<lparr>geometry = ''rect'', loadedImage = ''PNG'',
           drawDebug = ''http://tile.example.com/3/1/2.png Cached Tile''\<rparr>] \<and>
     mRequest s' examplePos = None \<and> nextReply s' = 0"
  using request_cache_hit [of exampleEnv examplePos "idleState [exampleRow ''PNG'']"
      "[exampleRow ''PNG'']" "exampleRow ''PNG''"]
  by (auto simp: example_defs unique_tiles_def same_tile_def)

text \<open>
  Claim C5, as the code has it. On the completion of a reply without error (and with
  a URL that has a third part) \<^verbatim>\<open>onReplyFinished\<close> performs, in this order: the removal
  of the entry of \<open>tilePos\<close> from \<^verbatim>\<open>mRequest\<close> with \<^verbatim>\<open>abort\<close>, \<^verbatim>\<open>close\<close> and
  \<^verbatim>\<open>deleteLater\<close> on its reply (when there is an entry), the delivery \<open>OnTile\<close> of the tile
  built from the bytes received, and the \<^verbatim>\<open>INSERT OR REPLACE\<close> of those bytes. When the
  statement fails, the failure is logged after the delivery, which stays in the trace
  unchanged.
\<close>

theorem onReplyFinished_success_order:
  assumes "reply_error reply = NoError"
    and "2 < length (qsplit CHR ''/'' (reply_url reply))"
  shows "\<exists>s' q ok tile.
           onReplyFinished E reply tilePos s = Inr s' \<and>
           q = InsertOrReplaceTile (zoom tilePos) (pos_x tilePos) (pos_y tilePos)
                 (qsplit CHR ''/'' (reply_url reply) ! 2) (reply_readAll reply) \<and>
           ok = fst (sql_exec q (mSqlDatabase s)) \<and>
           tile = \<lparr>geometry = toGeoRect E tilePos, loadedImage = reply_readAll reply,
                   drawDebug = formatDrawDebug E (reply_url reply) (zoom tilePos)
                     (pos_x tilePos) (pos_y tilePos)\<rparr> \<and>
           trace s' = trace s @ removalEffects s tilePos @ [OnTile tilePos tile, SqlExec q ok]
                        @ (if ok then [] else [QgvCritical (LogQuery q)])
                        @ [QgvDebug (LogSqlQuery q)] \<and>
           mRequest s' = (mRequest s)(tilePos := None)"
  using assms
  by (simp add: onReplyFinished_def Let_def cacheTile_result onTile_def cacheTileEffects_def
      del: sql_exec.simps)

text \<open>
  A database that cannot be written: the tile is delivered, then the failed statement
  is logged.
\<close>

theorem onReplyFinished_success_order_witness:
  "\<exists>s'. onReplyFinished exampleEnv (exampleReply NoError ''PNG'') examplePos
           ((fetchingState []) \<lparr>mSqlDatabase := (exampleDb []) \<lparr>db_writable := False\<rparr>\<rparr>) = Inr s' \<and>
         trace s' =
           [InFlightRemove examplePos 0, ReplyAbort 0, ReplyClose 0, ReplyDeleteLater 0,
            OnTile examplePos
              \<lparr>geometry = ''rect'', loadedImage = ''PNG'', drawDebug = exampleUrl\<rparr>,
            SqlExec (InsertOrReplaceTile 3 1 2 ''tile.example.com'' ''PNG'') False,
            QgvCritical (LogQuery (InsertOrReplaceTile 3 1 2 ''tile.example.com'' ''PNG'')),
            QgvDebug (LogSqlQuery (InsertOrReplaceTile 3 1 2 ''tile.example.com'' ''PNG''))] \<and>
         mRequest s' examplePos = None"
  using onReplyFinished_success_order [of "exampleReply NoError ''PNG''" exampleEnv examplePos
      "(fetchingState []) \<lparr>mSqlDatabase := (exampleDb []) \<lparr>db_writable := False\<rparr>\<rparr>"]
  by (auto simp: example_defs removalEffects_def)

text \<open>
  The removal of the entry is not the last step: for the tile \<open>(3, 1, 2)\<close> in flight,
  the trace of \<^verbatim>\<open>onReplyFinished\<close> has the removal before the delivery, and no cache
  write before a removal.
\<close>

theorem removal_last_counterexample:
  "map_sum id trace
     (onReplyFinished exampleEnv (exampleReply NoError ''PNG'') examplePos (fetchingState [])) =
   Inr [InFlightRemove examplePos 0, ReplyAbort 0, ReplyClose 0, ReplyDeleteLater 0,
        OnTile examplePos \<lparr>geometry = ''rect'', loadedImage = ''PNG'', drawDebug = exampleUrl\<rparr>,
        SqlExec (InsertOrReplaceTile 3 1 2 ''tile.example.com'' ''PNG'') True,
        QgvDebug (LogSqlQuery (InsertOrReplaceTile 3 1 2 ''tile.example.com'' ''PNG''))] \<and>
   map_sum id (precedes isCacheWrite isRemoval \<circ> trace)
     (onReplyFinished exampleEnv (exampleReply NoError ''PNG'') examplePos (fetchingState [])) =
   Inr False \<and>
   map_sum id (precedes isRemoval isDelivery \<circ> trace)
     (onReplyFinished exampleEnv (exampleReply NoError ''PNG'') examplePos (fetchingState [])) =
   Inr True"
  by (simp add: example_defs onReplyFinished_def removeReply_def abort_def emit_def onTile_def
      cacheTile_def qlist_at_def next_rowid_def isCacheWrite_def isRemoval_def isDelivery_def
      Let_def)

text \<open>
  Claim C6. On the completion of a reply with an error \<^verbatim>\<open>onReplyFinished\<close> returns
  normally, the entry of \<open>tilePos\<close> is removed from \<^verbatim>\<open>mRequest\<close>, the database is as
  before, and the trace gains no delivery and no SQL statement. Its only log line is
  the \<^verbatim>\<open>qgvCritical\<close> with the error string of the reply, and there is none when the
  error is \<^verbatim>\<open>OperationCanceledError\<close>.
\<close>

theorem onReplyFinished_error:
  assumes "reply_error reply \<noteq> NoError"
  shows "\<exists>s' added. onReplyFinished E reply tilePos s = Inr s' \<and>
           mRequest s' = (mRequest s)(tilePos := None) \<and>
           mSqlDatabase s' = mSqlDatabase s \<and>
           trace s' = trace s @ added \<and>
           deliveries added = [] \<and> sqlExecs added = [] \<and>
           logged added =
             (if reply_error reply = OperationCanceledError then []
              else [QgvCritical (LogReply (reply_errorString reply))])"
  using assms by (simp add: onReplyFinished_def)

text \<open>
  A cancelled reply and a reply with another error, for the tile \<open>(3, 1, 2)\<close> in flight.
\<close>

theorem onReplyFinished_error_witness:
  "(\<exists>s' added. onReplyFinished exampleEnv (exampleReply OperationCanceledError []) examplePos
        (fetchingState []) = Inr s' \<and> mRequest s' examplePos = None \<and>
        trace s' = added \<and> deliveries added = [] \<and> sqlExecs added = [] \<and> logged added = []) \<and>
   (\<exists>s' added. onReplyFinished exampleEnv (exampleReply (OtherNetworkError 3) []) examplePos
        (fetchingState []) = Inr s' \<and> mRequest s' examplePos = None \<and>
        trace s' = added \<and> deliveries added = [] \<and> sqlExecs added = [] \<and>
        logged added = [QgvCritical (LogReply ''failed'')])"
  using onReplyFinished_error [of "exampleReply OperationCanceledError []" exampleEnv examplePos "fetchingState []"]
    onReplyFinished_error [of "exampleReply (OtherNetworkError 3) []" exampleEnv examplePos "fetchingState []"]
  by (auto simp: example_defs)

text \<open>
  Claim C7. \<^verbatim>\<open>cancel(tilePos)\<close> returns the state it was given when \<^verbatim>\<open>mRequest\<close> has no
  entry for \<open>tilePos\<close>. When it has the entry \<open>reply\<close>, the entry is removed and no other
  entry changes, \<^verbatim>\<open>abort\<close>, \<^verbatim>\<open>close\<close> and \<^verbatim>\<open>deleteLater\<close> are called on \<open>reply\<close>, a
  running \<open>reply\<close> is aborted, and the other replies, the slots and the database are
  as before; nothing is delivered or logged.
\<close>

theorem cancel_aborts_and_removes_or_noop:
  "(mRequest s tilePos = None \<longrightarrow> cancel tilePos s = s) \<and>
   (\<forall>reply. mRequest s tilePos = Some reply \<longrightarrow>
      mRequest (cancel tilePos s) = (mRequest s)(tilePos := None) \<and>
      trace (cancel tilePos s) =
        trace s @ [InFlightRemove tilePos reply, ReplyAbort reply, ReplyClose reply,
                   ReplyDeleteLater reply] \<and>
      (replyStatus s reply = Some Running \<longrightarrow>
         replyStatus (cancel tilePos s) reply = Some Aborted) \<and>
      (\<forall>h. h \<noteq> reply \<longrightarrow> replyStatus (cancel tilePos s) h = replyStatus s h) \<and>
      mSqlDatabase (cancel tilePos s) = mSqlDatabase s \<and>
      finishedSlot (cancel tilePos s) = finishedSlot s \<and>
      nextReply (cancel tilePos s) = nextReply s)"
  by (simp add: cancel_def removeReply_None removalEffects_def replyStatus_removeReply)

text \<open>
  Cancelling the tile \<open>(3, 1, 2)\<close> in the idle state and while it is in flight.
\<close>

theorem cancel_witness:
  "cancel examplePos (idleState []) = idleState [] \<and>
   mRequest (cancel examplePos (fetchingState [])) examplePos = None \<and>
   trace (cancel examplePos (fetchingState [])) =
     [InFlightRemove examplePos 0, ReplyAbort 0, ReplyClose 0, ReplyDeleteLater 0] \<and>
   replyStatus (cancel examplePos (fetchingState [])) 0 = Some Aborted"
  using cancel_aborts_and_removes_or_noop [of "idleState []" examplePos]
    cancel_aborts_and_removes_or_noop [of "fetchingState []" examplePos]
  by (simp add: example_defs)

text \<open>
  Claim C8. For a URL with at least three parts between \<open>/\<close>, \<^verbatim>\<open>findCachedTile\<close> executes
  its \<^verbatim>\<open>SELECT\<close> and \<^verbatim>\<open>cacheTile\<close> its \<^verbatim>\<open>INSERT OR REPLACE\<close> with the same provider: the
  part at index 2, next to the zoom, x and y of the tile position. For a URL with fewer
  parts both fail at the index. For a URL \<open>scheme//host/path\<close> with no \<open>/\<close> in the scheme
  and the host, the part at index 2 is the host.
\<close>

theorem provider_is_third_token:
  "(2 < length (qsplit CHR ''/'' url) \<longrightarrow>
      (\<exists>data s1 ok. findCachedTile tilePos url s = Inr (data, s1) \<and>
         sqlExecs (trace s1) = sqlExecs (trace s) @
           [(SelectTileData (zoom tilePos) (pos_x tilePos) (pos_y tilePos)
               (qsplit CHR ''/'' url ! 2), ok)]) \<and>
      (\<exists>s2 ok. cacheTile img tilePos url s = Inr s2 \<and>
         sqlExecs (trace s2) = sqlExecs (trace s) @
           [(InsertOrReplaceTile (zoom tilePos) (pos_x tilePos) (pos_y tilePos)
               (qsplit CHR ''/'' url ! 2) img, ok)])) \<and>
   (\<not> 2 < length (qsplit CHR ''/'' url) \<longrightarrow>
      findCachedTile tilePos url s = Inl IndexOutOfRange \<and>
      cacheTile img tilePos url s = Inl IndexOutOfRange) \<and>
   (\<forall>scheme host path.
      url = scheme @ ''//'' @ host @ ''/'' @ path \<and>
      CHR ''/'' \<notin> set scheme \<and> CHR ''/'' \<notin> set host \<longrightarrow>
      2 < length (qsplit CHR ''/'' url) \<and> qsplit CHR ''/'' url ! 2 = host)"
proof (intro conjI impI allI)
  assume len: "2 < length (qsplit CHR ''/'' url)"
  show "\<exists>data s1 ok. findCachedTile tilePos url s = Inr (data, s1) \<and>
         sqlExecs (trace s1) = sqlExecs (trace s) @
           [(SelectTileData (zoom tilePos) (pos_x tilePos) (pos_y tilePos)
               (qsplit CHR ''/'' url ! 2), ok)]"
    by (simp add: findCachedTile_result [OF len] del: sql_exec.simps)
  show "\<exists>s2 ok. cacheTile img tilePos url s = Inr s2 \<and>
         sqlExecs (trace s2) = sqlExecs (trace s) @
           [(InsertOrReplaceTile (zoom tilePos) (pos_x tilePos) (pos_y tilePos)
               (qsplit CHR ''/'' url ! 2) img, ok)]"
    by (simp add: cacheTile_result [OF len] Let_def cacheTileEffects_def del: sql_exec.simps)
next
  assume "\<not> 2 < length (qsplit CHR ''/'' url)"
  then show "findCachedTile tilePos url s = Inl IndexOutOfRange"
    and "cacheTile img tilePos url s = Inl IndexOutOfRange"
    by (simp_all add: findCachedTile_crash cacheTile_crash)
next
  fix scheme host path
  assume a: "url = scheme @ ''//'' @ host @ ''/'' @ path \<and>
      CHR ''/'' \<notin> set scheme \<and> CHR ''/'' \<notin> set host"
  then obtain rest where "qsplit CHR ''/'' url = scheme # [] # host # rest"
    using qsplit_scheme_host [of scheme host path] by auto
  then show "2 < length (qsplit CHR ''/'' url)" and "qsplit CHR ''/'' url ! 2 = host"
    by simp_all
qed

text \<open>
  The URL \<open>http://tile.example.com/3/1/2.png\<close> has the provider \<open>tile.example.com\<close>;
  \<open>tile.png\<close> has one part only.
\<close>

theorem provider_is_third_token_witness:
  "(\<exists>data s1 ok. findCachedTile examplePos exampleUrl (idleState []) = Inr (data, s1) \<and>
      sqlExecs (trace s1) = [(SelectTileData 3 1 2 ''tile.example.com'', ok)]) \<and>
   (\<exists>s2 ok. cacheTile ''PNG'' examplePos exampleUrl (idleState []) = Inr s2 \<and>
      sqlExecs (trace s2) = [(InsertOrReplaceTile 3 1 2 ''tile.example.com'' ''PNG'', ok)]) \<and>
   findCachedTile examplePos ''tile.png'' (idleState []) = Inl IndexOutOfRange \<and>
   cacheTile ''PNG'' examplePos ''tile.png'' (idleState []) = Inl IndexOutOfRange \<and>
   qsplit CHR ''/'' (''http:'' @ ''//'' @ ''tile.example.com'' @ ''/'' @ ''3/1/2.png'') ! 2 =
     ''tile.example.com''"
  using provider_is_third_token [of exampleUrl examplePos "idleState []" "''PNG''"]
    provider_is_third_token [of "''tile.png''" examplePos "idleState []" "''PNG''"]
  by (auto simp: example_defs)

text \<open>
  Claim C9, as the code has it. On a database that is open, can be written and has the
  table, two calls of \<^verbatim>\<open>cacheTile\<close> for one tile position and URLs with the same
  provider, with the bytes \<open>b1\<close> and then \<open>b2\<close>, where \<open>b2\<close> is not empty, leave exactly
  one row for that key, holding \<open>b2\<close>; the rows of the other keys are as before.
\<close>

theorem cacheTile_twice_one_row:
  assumes "db_is_open (mSqlDatabase s)" "db_writable (mSqlDatabase s)"
    and "db_tiles (mSqlDatabase s) = Some rows"
    and "2 < length (qsplit CHR ''/'' url1)" "2 < length (qsplit CHR ''/'' url2)"
    and "qsplit CHR ''/'' url1 ! 2 = qsplit CHR ''/'' url2 ! 2"
    and "b2 \<noteq> []"
  shows "\<exists>s1 s2 rows2 r.
           cacheTile b1 tilePos url1 s = Inr s1 \<and>
           cacheTile b2 tilePos url2 s1 = Inr s2 \<and>
           db_tiles (mSqlDatabase s2) = Some rows2 \<and>
           filter (same_tile (zoom tilePos) (pos_x tilePos) (pos_y tilePos)
                     (qsplit CHR ''/'' url1 ! 2)) rows2 = [r] \<and>
           tile_data r = b2 \<and>
           filter (\<lambda>r. \<not> same_tile (zoom tilePos) (pos_x tilePos) (pos_y tilePos)
                     (qsplit CHR ''/'' url1 ! 2) r) rows2 =
           filter (\<lambda>r. \<not> same_tile (zoom tilePos) (pos_x tilePos) (pos_y tilePos)
                     (qsplit CHR ''/'' url1 ! 2) r) rows"
proof -
  let ?K = "same_tile (zoom tilePos) (pos_x tilePos) (pos_y tilePos) (qsplit CHR ''/'' url1 ! 2)"
  obtain s1 rows1 where c1: "cacheTile b1 tilePos url1 s = Inr s1"
    and o1: "db_is_open (mSqlDatabase s1)" "db_writable (mSqlDatabase s1)"
    and t1: "db_tiles (mSqlDatabase s1) = Some rows1"
    and g1: "filter (\<lambda>r. \<not> ?K r) rows1 = filter (\<lambda>r. \<not> ?K r) rows"
  proof (cases "b1 = []")
    case True
    show ?thesis
    proof (rule that)
      show "cacheTile b1 tilePos url1 s =
              Inr (emit [SqlExec (InsertOrReplaceTile (zoom tilePos) (pos_x tilePos)
                           (pos_y tilePos) (qsplit CHR ''/'' url1 ! 2) []) False,
                         QgvCritical (LogQuery (InsertOrReplaceTile (zoom tilePos)
                           (pos_x tilePos) (pos_y tilePos) (qsplit CHR ''/'' url1 ! 2) [])),
                         QgvDebug (LogSqlQuery (InsertOrReplaceTile (zoom tilePos)
                           (pos_x tilePos) (pos_y tilePos) (qsplit CHR ''/'' url1 ! 2) []))] s)"
        using True by (simp add: cacheTile_null [OF assms(4)] Let_def)
    qed (use assms(1-3) in simp_all)
  next
    case False
    then show ?thesis
      using cacheTile_stores [OF assms(1-4), of b1 tilePos] that by blast
  qed
  obtain s2 rows2 r where c2: "cacheTile b2 tilePos url2 s1 = Inr s2"
    and t2: "db_tiles (mSqlDatabase s2) = Some rows2"
    and f2: "filter ?K rows2 = [r]" and d2: "tile_data r = b2"
    and g2: "filter (\<lambda>r. \<not> ?K r) rows2 = filter (\<lambda>r. \<not> ?K r) rows1"
    using cacheTile_stores [OF o1 t1 assms(5,7), of tilePos] assms(6) by auto
  show ?thesis using c1 c2 t2 f2 d2 g2 g1 by auto
qed

text \<open>
  A table that already has a row for the key ends with the one row of the last call.
\<close>

theorem cacheTile_twice_one_row_witness:
  "\<exists>s1 s2 r.
     cacheTile ''old'' examplePos exampleUrl (idleState [exampleRow ''older'']) = Inr s1 \<and>
     cacheTile ''new'' examplePos ''https://tile.example.com/x'' s1 = Inr s2 \<and>
     db_tiles (mSqlDatabase s2) =
       Some [\<lparr>row_id = 3, zoom_level = 3, tile_x = 1, tile_y = 2,
              tile_provider = ''tile.example.com'', tile_data = ''new''\<rparr>]"
  using cacheTile_twice_one_row [of "idleState [exampleRow ''older'']" "[exampleRow ''older'']"
      exampleUrl "''https://tile.example.com/x''" "''new''" "''old''" examplePos]
  by (auto simp: example_defs same_tile_def cacheTile_def qlist_at_def emit_def next_rowid_def
      Let_def)

text \<open>
  The second store does not replace the first when its bytes are empty, as those of a
  reply without content are: the statement fails on the \<^verbatim>\<open>NOT NULL\<close> column and is
  logged, and the one row of the key still holds the bytes of the first store.
\<close>

theorem cacheTile_empty_counterexample:
  "map_sum id (db_tiles \<circ> mSqlDatabase)
     (cacheTile [] examplePos exampleUrl
        (projr (cacheTile ''old'' examplePos exampleUrl (idleState [])))) =
   Inr (Some [\<lparr>row_id = 1, zoom_level = 3, tile_x = 1, tile_y = 2,
               tile_provider = ''tile.example.com'', tile_data = ''old''\<rparr>]) \<and>
   map_sum id (sqlExecs \<circ> trace)
     (cacheTile [] examplePos exampleUrl
        (projr (cacheTile ''old'' examplePos exampleUrl (idleState [])))) =
   Inr [(InsertOrReplaceTile 3 1 2 ''tile.example.com'' ''old'', True),
        (InsertOrReplaceTile 3 1 2 ''tile.example.com'' [], False)] \<and>
   map_sum id (logged \<circ> trace)
     (cacheTile [] examplePos exampleUrl
        (projr (cacheTile ''old'' examplePos exampleUrl (idleState [])))) =
   Inr [QgvDebug (LogSqlQuery (InsertOrReplaceTile 3 1 2 ''tile.example.com'' ''old'')),
        QgvCritical (LogQuery (InsertOrReplaceTile 3 1 2 ''tile.example.com'' [])),
        QgvDebug (LogSqlQuery (InsertOrReplaceTile 3 1 2 ''tile.example.com'' []))]"
  by (simp add: example_defs cacheTile_def qlist_at_def emit_def next_rowid_def Let_def)

text \<open>
  Claim C10. When the open database holds the row for the key of \<open>tilePos\<close> with empty
  data, \<^verbatim>\<open>findCachedTile\<close> returns the empty bytes and \<^verbatim>\<open>request\<close> issues a network
  request and enters the new reply in \<^verbatim>\<open>mRequest\<close>, as both do on the same database
  without that row: the two runs differ in the debug line of the \<^verbatim>\<open>SELECT\<close> only.
\<close>

theorem empty_cached_data_is_a_miss:
  assumes "networkManager E"
    and "2 < length (qsplit CHR ''/'' (tilePosToUrl E tilePos))"
    and "db_is_open (mSqlDatabase s)" "db_tiles (mSqlDatabase s) = Some rows"
    and "unique_tiles rows" "r \<in> set rows"
    and "same_tile (zoom tilePos) (pos_x tilePos) (pos_y tilePos)
           (qsplit CHR ''/'' (tilePosToUrl E tilePos) ! 2) r"
    and "tile_data r = []"
  shows "\<exists>s1 s' a1 a' q.
           q = SelectTileData (zoom tilePos) (pos_x tilePos) (pos_y tilePos)
                 (qsplit CHR ''/'' (tilePosToUrl E tilePos) ! 2) \<and>
           findCachedTile tilePos (tilePosToUrl E tilePos) s = Inr ([], s1) \<and>
           request E tilePos s = Inr s' \<and>
           trace s' = trace s @
             [SqlExec q True, QgvDebug (LogSqlQuery q),
              NetworkGet (nextReply s) (tileRequest (tilePosToUrl E tilePos)),
              InFlightInsert tilePos (nextReply s),
              QgvDebug (LogRequest (tilePosToUrl E tilePos))] \<and>
           mRequest s' = (mRequest s)(tilePos \<mapsto> nextReply s) \<and>
           replyStatus s' = (replyStatus s)(nextReply s \<mapsto> Running) \<and>
           findCachedTile tilePos (tilePosToUrl E tilePos)
             (s\<lparr>mSqlDatabase := (mSqlDatabase s)\<lparr>db_tiles := Some (removeAll r rows)\<rparr>\<rparr>) =
             Inr ([], a1) \<and>
           request E tilePos
             (s\<lparr>mSqlDatabase := (mSqlDatabase s)\<lparr>db_tiles := Some (removeAll r rows)\<rparr>\<rparr>) =
             Inr a' \<and>
           trace a' = trace s @
             [SqlExec q True,
              NetworkGet (nextReply s) (tileRequest (tilePosToUrl E tilePos)),
              InFlightInsert tilePos (nextReply s),
              QgvDebug (LogRequest (tilePosToUrl E tilePos))] \<and>
           mRequest a' = mRequest s' \<and> replyStatus a' = replyStatus s'"
proof -
  let ?url = "tilePosToUrl E tilePos"
  let ?pr = "qsplit CHR ''/'' ?url ! 2"
  let ?a = "s\<lparr>mSqlDatabase := (mSqlDatabase s)\<lparr>db_tiles := Some (removeAll r rows)\<rparr>\<rparr>"
  have c: "cachedData (mSqlDatabase s) (zoom tilePos) (pos_x tilePos) (pos_y tilePos) ?pr = []"
    using cachedData_unique [OF assms(3-7)] assms(8) by simp
  have single: "filter (same_tile (zoom tilePos) (pos_x tilePos) (pos_y tilePos) ?pr) rows = [r]"
    using assms(5,6,7) by (rule unique_tiles_single)
  have none: "\<forall>r'\<in>set (removeAll r rows).
                \<not> same_tile (zoom tilePos) (pos_x tilePos) (pos_y tilePos) ?pr r'"
  proof
    fix r' assume r': "r' \<in> set (removeAll r rows)"
    show "\<not> same_tile (zoom tilePos) (pos_x tilePos) (pos_y tilePos) ?pr r'"
    proof
      assume "same_tile (zoom tilePos) (pos_x tilePos) (pos_y tilePos) ?pr r'"
      then have "r' \<in> set (filter (same_tile (zoom tilePos) (pos_x tilePos) (pos_y tilePos) ?pr) rows)"
        using r' by simp
      then show False using single r' by simp
    qed
  qed
  then have f: "filter (same_tile (zoom tilePos) (pos_x tilePos) (pos_y tilePos) ?pr)
                  (removeAll r rows) = []"
    by (auto simp: filter_empty_conv)
  have ca: "cachedData (mSqlDatabase ?a) (zoom tilePos) (pos_x tilePos) (pos_y tilePos) ?pr = []"
    using assms(3) f by (simp add: cachedData_def)
  have ea: "findCachedTileEffects (mSqlDatabase ?a)
              (SelectTileData (zoom tilePos) (pos_x tilePos) (pos_y tilePos) ?pr) =
            [SqlExec (SelectTileData (zoom tilePos) (pos_x tilePos) (pos_y tilePos) ?pr) True]"
    by (rule findCachedTileEffects_absent [where rows = "removeAll r rows"])
      (use assms(3) none in simp_all)
  show ?thesis
    using c ca
    by (simp add: request_miss [OF assms(1,2)] findCachedTile_result [OF assms(2)]
        findCachedTileEffects_found [OF assms(3,4,6,7)] ea [simplified]
        request_miss [of E tilePos ?a, OF assms(1,2)])
qed

text \<open>
  The row of the tile \<open>(3, 1, 2)\<close> with empty data: the request goes to the network.
\<close>

theorem empty_cached_data_is_a_miss_witness:
  "\<exists>s'. request exampleEnv examplePos (idleState [exampleRow []]) = Inr s' \<and>
     networkGets (trace s') = [(0, tileRequest exampleUrl)] \<and> deliveries (trace s') = [] \<and>
     mRequest s' examplePos = Some 0"
  using empty_cached_data_is_a_miss [of exampleEnv examplePos "idleState [exampleRow []]"
      "[exampleRow []]" "exampleRow []"]
  by (auto simp: example_defs unique_tiles_def same_tile_def)

end
